theory Spec2Isabelle
  imports Complex_Main "HOL-Library.AList" "HOL-Library.Multiset"
begin

section \<open>Python values used by the repository\<close>

text \<open>
  Metadata dictionaries of a langchain \<open>Document\<close> hold strings and integers. A dictionary
  is an association list in insertion order: \<open>map_of\<close> is \<open>dict.get\<close>, \<open>AList.update\<close> is
  item assignment (an existing key keeps its place, a new key goes to the end).
\<close>

datatype meta_value = MStr string | MInt int

type_synonym metadata_dict = "(string \<times> meta_value) list"

record document =
  page_content :: string
  metadata :: metadata_dict

text \<open>
  Instances of Python's \<open>Exception\<close> family, each with the text that \<open>str(e)\<close> gives. botocore's
  \<open>ClientError\<close> is kept apart because \<open>query_model.py\<close> catches it by name.
\<close>

datatype exn = ClientError string | OtherException string

fun exn_str :: "exn \<Rightarrow> string" where
  "exn_str (ClientError m) = m"
| "exn_str (OtherException m) = m"

subsection \<open>\<open>str\<close> of an integer\<close>

definition digit_char :: "nat \<Rightarrow> char" where
  "digit_char d = char_of (48 + d)"

function str_nat :: "nat \<Rightarrow> string" where
  "str_nat n = (if n < 10 then [digit_char n] else str_nat (n div 10) @ [digit_char (n mod 10)])"
  by pat_completeness auto
termination
  by (relation "measure (\<lambda>n. n)") auto

declare str_nat.simps [simp del]

definition str_int :: "int \<Rightarrow> string" where
  "str_int i = (if i < 0 then CHR ''-'' # str_nat (nat (- i)) else str_nat (nat i))"

text \<open>\<open>str(v)\<close> as an f-string field renders it; \<open>None\<close> is the value of a missing key.\<close>

fun py_str :: "meta_value option \<Rightarrow> string" where
  "py_str None = ''None''"
| "py_str (Some (MStr s)) = s"
| "py_str (Some (MInt i)) = str_int i"

subsection \<open>\<open>str.join\<close>, \<open>str.strip\<close>, \<open>str.lower\<close>, \<open>str.endswith\<close>\<close>

fun join :: "string \<Rightarrow> string list \<Rightarrow> string" where
  "join sep [] = []"
| "join sep [x] = x"
| "join sep (x # y # ys) = x @ sep @ join sep (y # ys)"

text \<open>
  Characters are the code points below 256. Python's \<open>str.isspace\<close> holds there for
  tab, line feed, vertical tab, form feed, carriage return, the separators
  \<open>0x1c\<close> to \<open>0x1f\<close>, space, \<open>0x85\<close> and \<open>0xa0\<close>.
\<close>

definition isspace :: "char \<Rightarrow> bool" where
  "isspace c = (of_char c \<in> {9, 10, 11, 12, 13, 28, 29, 30, 31, 32, 133, 160 :: nat})"

definition strip :: "string \<Rightarrow> string" where
  "strip s = rev (dropWhile isspace (rev (dropWhile isspace s)))"

text \<open>
  \<open>lower\<close> maps the ASCII capitals; no other character lowers to a character of the
  suffix \<open>.pdf\<close>, the only use \<open>load_documents\<close> makes of it.
\<close>

definition lower_char :: "char \<Rightarrow> char" where
  "lower_char c = (let n = of_char c :: nat in if 65 \<le> n \<and> n \<le> 90 then char_of (n + 32) else c)"

definition lower :: "string \<Rightarrow> string" where
  "lower s = map lower_char s"

definition endswith :: "string \<Rightarrow> string \<Rightarrow> bool" where
  "endswith s suffix = (length suffix \<le> length s \<and> drop (length s - length suffix) s = suffix)"

section \<open>\<open>populate_database.py\<close>\<close>

subsection \<open>Extraction: \<open>extract_pdf_content\<close>\<close>

text \<open>
  What PyMuPDF hands to \<open>extract_pdf_content\<close> for one page: the plain text
  (\<open>get_text("text")\<close>), for every entry of \<open>get_images(full=True)\<close> the bytes that
  \<open>extract_image\<close> returns for it, and the blocks of \<open>get_text("dict")\<close>. A text block
  has the key \<open>lines\<close>, each line the texts of its spans; an image block has no such key.
  An opened document is the list of its pages; \<open>fitz.open\<close> either opens it or raises.
  \<open>base64.b64encode(...).decode('utf-8')\<close> is the parameter \<open>b64\<close>.
\<close>

datatype pdf_block = TextBlock "string list list" | ImageBlock

fun block_lines :: "pdf_block \<Rightarrow> string list list" where
  "block_lines (TextBlock ls) = ls"
| "block_lines ImageBlock = []"

record pdf_page =
  page_text :: string
  page_images :: "string list"
  page_blocks :: "pdf_block list"

type_synonym pdf_document = "pdf_page list"

definition text_document :: "string \<Rightarrow> nat \<Rightarrow> string \<Rightarrow> document" where
  "text_document file_path page_num txt =
     \<lparr>page_content = txt,
      metadata = [(''source'', MStr file_path), (''page'', MInt (int page_num + 1))]\<rparr>"

definition image_document :: "string \<Rightarrow> nat \<Rightarrow> nat \<Rightarrow> string \<Rightarrow> document" where
  "image_document file_path page_num img_index image_base64 =
     \<lparr>page_content = image_base64,
      metadata = [(''source'', MStr file_path), (''page'', MInt (int page_num + 1)),
                  (''type'', MStr ''image''), (''image_index'', MInt (int img_index))]\<rparr>"

definition table_document :: "string \<Rightarrow> nat \<Rightarrow> nat \<Rightarrow> string \<Rightarrow> document" where
  "table_document file_path page_num block_index table_content =
     \<lparr>page_content = table_content,
      metadata = [(''source'', MStr file_path), (''page'', MInt (int page_num + 1)),
                  (''type'', MStr ''table''), (''table_index'', MInt (int block_index))]\<rparr>"

text \<open>The loop over \<open>enumerate(image_list)\<close>, appending to \<open>documents\<close>.\<close>

fun extract_images ::
  "(string \<Rightarrow> string) \<Rightarrow> string \<Rightarrow> nat \<Rightarrow> nat \<Rightarrow> string list \<Rightarrow> document list \<Rightarrow> document list"
where
  "extract_images b64 file_path page_num img_index [] documents = documents"
| "extract_images b64 file_path page_num img_index (image_bytes # imgs) documents =
     extract_images b64 file_path page_num (Suc img_index) imgs
       (documents @ [image_document file_path page_num img_index (b64 image_bytes)])"

text \<open>The loop over \<open>enumerate(blocks)\<close> with the table heuristic.\<close>

definition is_table :: "string list list \<Rightarrow> bool" where
  "is_table lns = (length lns > 1 \<and> list_all (\<lambda>spans. length spans > 0) lns)"

definition table_content :: "string list list \<Rightarrow> string" where
  "table_content lns = join [CHR 0x0A] (map (join [CHR 0x09]) lns)"

fun extract_tables ::
  "string \<Rightarrow> nat \<Rightarrow> nat \<Rightarrow> pdf_block list \<Rightarrow> document list \<Rightarrow> document list"
where
  "extract_tables file_path page_num block_index [] documents = documents"
| "extract_tables file_path page_num block_index (block # blocks) documents =
     (let lns = block_lines block in
      if is_table lns
      then extract_tables file_path page_num (Suc block_index) blocks
             (documents @ [table_document file_path page_num block_index (table_content lns)])
      else extract_tables file_path page_num (Suc block_index) blocks documents)"

text \<open>The body of the loop over the pages: text, then images, then tables.\<close>

definition extract_page ::
  "(string \<Rightarrow> string) \<Rightarrow> string \<Rightarrow> nat \<Rightarrow> pdf_page \<Rightarrow> document list \<Rightarrow> document list"
where
  "extract_page b64 file_path page_num page documents =
     (let txt = page_text page;
          documents = (if strip txt \<noteq> [] then documents @ [text_document file_path page_num txt]
                       else documents);
          documents = extract_images b64 file_path page_num 0 (page_images page) documents
      in extract_tables file_path page_num 0 (page_blocks page) documents)"

fun extract_pages ::
  "(string \<Rightarrow> string) \<Rightarrow> string \<Rightarrow> nat \<Rightarrow> pdf_page list \<Rightarrow> document list \<Rightarrow> document list"
where
  "extract_pages b64 file_path page_num [] documents = documents"
| "extract_pages b64 file_path page_num (page # pages) documents =
     extract_pages b64 file_path (Suc page_num) pages
       (extract_page b64 file_path page_num page documents)"

definition extract_pdf_content ::
  "(string \<Rightarrow> string) \<Rightarrow> string \<Rightarrow> exn + pdf_document \<Rightarrow> exn + document list"
where
  "extract_pdf_content b64 file_path opened =
     (case opened of
        Inl e \<Rightarrow> Inl e
      | Inr pdf_document \<Rightarrow> Inr (extract_pages b64 file_path 0 pdf_document []))"

text \<open>
  To speak about the order of the emitted units: the page a unit carries, its kind as
  \<open>metadata.get("type", "text")\<close> reads it (in \<open>add_to_chroma\<close> and in \<open>query_rag\<close>), and
  "\<open>a\<close> comes no later than \<open>b\<close>" for a ranking of the kinds. \<open>rank_text_image_table\<close> is
  the order of the loop body above; \<open>rank_text_table_image\<close> is the order the
  specification words.
\<close>

definition page_number :: "document \<Rightarrow> int" where
  "page_number doc = (case map_of (metadata doc) ''page'' of Some (MInt n) \<Rightarrow> n | _ \<Rightarrow> 0)"

definition doc_type :: "document \<Rightarrow> meta_value" where
  "doc_type doc = (case map_of (metadata doc) ''type'' of None \<Rightarrow> MStr ''text'' | Some t \<Rightarrow> t)"

definition rank_text_image_table :: "meta_value \<Rightarrow> nat" where
  "rank_text_image_table t = (if t = MStr ''text'' then 0 else if t = MStr ''image'' then 1 else 2)"

definition rank_text_table_image :: "meta_value \<Rightarrow> nat" where
  "rank_text_table_image t = (if t = MStr ''text'' then 0 else if t = MStr ''table'' then 1 else 2)"

definition emitted_before :: "(meta_value \<Rightarrow> nat) \<Rightarrow> document \<Rightarrow> document \<Rightarrow> bool" where
  "emitted_before rank a b =
     (page_number a < page_number b
      \<or> (page_number a = page_number b \<and> rank (doc_type a) \<le> rank (doc_type b)))"

subsection \<open>Loading the source directory: \<open>load_documents\<close>\<close>

definition DATA_SOURCE_PATH :: string where
  "DATA_SOURCE_PATH = ''src/data/source''"

text \<open>\<open>os.path.join\<close> of two components on POSIX.\<close>

definition path_join :: "string \<Rightarrow> string \<Rightarrow> string" where
  "path_join a b =
     (if b \<noteq> [] \<and> hd b = CHR ''/'' then b
      else if a = [] \<or> last a = CHR ''/'' then a @ b
      else a @ ''/'' @ b)"

text \<open>
  The directory is what \<open>os.listdir\<close> returns, in its order, each name with what
  \<open>fitz.open\<close> does for that file. The call of \<open>extract_pdf_content\<close> stands in no
  \<open>try\<close>: what it raises leaves \<open>load_documents\<close>.
\<close>

fun load_loop ::
  "(string \<Rightarrow> string) \<Rightarrow> (string \<times> (exn + pdf_document)) list \<Rightarrow> document list
     \<Rightarrow> exn + document list"
where
  "load_loop b64 [] documents = Inr documents"
| "load_loop b64 ((file_name, opened) # files) documents =
     (if endswith (lower file_name) ''.pdf''
      then (case extract_pdf_content b64 (path_join DATA_SOURCE_PATH file_name) opened of
              Inl e \<Rightarrow> Inl e
            | Inr units \<Rightarrow> load_loop b64 files (documents @ units))
      else load_loop b64 files documents)"

definition load_documents ::
  "(string \<Rightarrow> string) \<Rightarrow> (string \<times> (exn + pdf_document)) list \<Rightarrow> exn + document list"
where
  "load_documents b64 listing = load_loop b64 listing []"

subsection \<open>Splitting: \<open>split_documents\<close>\<close>

text \<open>
  \<open>RecursiveCharacterTextSplitter\<close> is langchain's; its \<open>split_text\<close> for a chunk size
  and an overlap is the parameter \<open>splitter\<close>. \<open>split_documents\<close> of the library
  makes, for every document in order and every chunk \<open>split_text\<close> returns for its
  \<open>page_content\<close>, a new document with that chunk and a copy of the document's metadata.
  \<open>populate_database.split_documents\<close> hands it the whole list.
\<close>

definition split_documents ::
  "(nat \<Rightarrow> nat \<Rightarrow> string \<Rightarrow> string list) \<Rightarrow> document list \<Rightarrow> document list"
where
  "split_documents splitter documents =
     (let max_chunk_size = 5000;
          split_text = splitter max_chunk_size 200
      in concat (map (\<lambda>doc. map (\<lambda>chunk. \<lparr>page_content = chunk, metadata = metadata doc\<rparr>)
                                  (split_text (page_content doc)))
                     documents))"

subsection \<open>Identifiers and the write to the index: \<open>add_to_chroma\<close>\<close>

text \<open>
  The first loop of \<open>add_to_chroma\<close>. The built-in \<open>hash\<close> is the parameter \<open>h\<close>: CPython
  salts the hash of a \<open>str\<close> with a key drawn when the interpreter starts (unless
  \<open>PYTHONHASHSEED\<close> fixes it), so \<open>h\<close> is the hash function of one interpreter process.
\<close>

definition chunk_id :: "(string \<Rightarrow> int) \<Rightarrow> document \<Rightarrow> string" where
  "chunk_id h doc =
     (let source = map_of (metadata doc) ''source'';
          page = map_of (metadata doc) ''page''
      in py_str source @ '':'' @ py_str page @ '':'' @ py_str (Some (doc_type doc)) @ '':''
           @ str_int (h (page_content doc)))"

definition assign_id :: "(string \<Rightarrow> int) \<Rightarrow> document \<Rightarrow> document" where
  "assign_id h doc = doc\<lparr>metadata := AList.update ''id'' (MStr (chunk_id h doc)) (metadata doc)\<rparr>"

text \<open>
  \<open>doc.metadata["id"]\<close>, read after the loop has stored it in every document (so the
  lookup finds a string; the last case is never reached from \<open>add_to_chroma\<close>).
\<close>

definition metadata_id :: "document \<Rightarrow> string" where
  "metadata_id doc = (case map_of (metadata doc) ''id'' of Some (MStr s) \<Rightarrow> s | _ \<Rightarrow> [])"

text \<open>
  The persisted Chroma collection: stored documents by id. \<open>db.get(include=[])["ids"]\<close> are
  its keys. \<open>db.add_documents(docs, ids=...)\<close> writes each document under its id (langchain
  calls the collection's upsert); Chroma refuses a call whose ids are not unique with a
  \<open>DuplicateIDError\<close> and writes nothing (the error carries the name of its class here,
  not the text of its message). Embedding and storage calls are otherwise taken to
  succeed.
\<close>

type_synonym chroma_db = "(string \<times> document) list"

definition db_ids :: "chroma_db \<Rightarrow> string list" where
  "db_ids db = map fst db"

definition add_documents :: "document list \<Rightarrow> string list \<Rightarrow> chroma_db \<Rightarrow> exn + chroma_db" where
  "add_documents docs ids db =
     (if distinct ids then Inr (fold (\<lambda>(i, d). AList.update i d) (zip ids docs) db)
      else Inl (OtherException ''DuplicateIDError''))"

text \<open>
  The result is what \<open>add_documents\<close> raised, or the collection afterwards and the number
  the function reports as added.
\<close>

definition add_to_chroma ::
  "(string \<Rightarrow> int) \<Rightarrow> chroma_db \<Rightarrow> document list \<Rightarrow> exn + chroma_db \<times> nat"
where
  "add_to_chroma h db documents =
     (let documents = map (assign_id h) documents;
          existing_ids = set (db_ids db);
          new_documents = filter (\<lambda>doc. metadata_id doc \<notin> existing_ids) documents
      in if new_documents \<noteq> []
         then (case add_documents new_documents (map metadata_id new_documents) db of
                 Inl e \<Rightarrow> Inl e
               | Inr db' \<Rightarrow> Inr (db', length new_documents))
         else Inr (db, 0))"

text \<open>
  \<open>main\<close>: optional reset, then load, split and add. An exception of \<open>load_documents\<close>
  ends the run before anything is written.
\<close>

definition clear_database :: "chroma_db \<Rightarrow> chroma_db" where
  "clear_database db = []"

definition main ::
  "(string \<Rightarrow> int) \<Rightarrow> (nat \<Rightarrow> nat \<Rightarrow> string \<Rightarrow> string list) \<Rightarrow> (string \<Rightarrow> string) \<Rightarrow> bool
     \<Rightarrow> (string \<times> (exn + pdf_document)) list \<Rightarrow> chroma_db \<Rightarrow> (exn + nat) \<times> chroma_db"
where
  "main h splitter b64 reset listing db =
     (let db = (if reset then clear_database db else db) in
      case load_documents b64 listing of
        Inl e \<Rightarrow> (Inl e, db)
      | Inr documents \<Rightarrow>
          (let chunks = split_documents splitter documents in
           case add_to_chroma h db chunks of
             Inl e \<Rightarrow> (Inl e, db)
           | Inr (db', n) \<Rightarrow> (Inr n, db')))"

section \<open>\<open>rag_app/query_rag.py\<close>\<close>

text \<open>
  The template's text around its two fields. \<open>ChatPromptTemplate.format\<close> renders the one
  human message of the template as a string, which starts \<open>Human: \<close>.
\<close>

definition PROMPT_TEMPLATE_before_context :: string where
  \<open>PROMPT_TEMPLATE_before_context =
     ''\<newline>If the context is not enough for an answer, add contact information to the response and advise to contact \<newline>support 'support@airobotics.com'\<newline>Do not include wording like: "The context does not provide enough information" into the answer.\<newline>Answer the question based only on the following context:\<newline>\<newline>\<newline>''\<close>

definition PROMPT_TEMPLATE_before_question :: string where
  "PROMPT_TEMPLATE_before_question =
     ''\<newline>\<newline>---\<newline>\<newline>Answer the question based on the above context: ''"

definition PROMPT_TEMPLATE_end :: string where
  "PROMPT_TEMPLATE_end = ''\<newline>''"

definition format_prompt :: "string \<Rightarrow> string \<Rightarrow> string" where
  "format_prompt context question =
     ''Human: '' @ PROMPT_TEMPLATE_before_context @ context @ PROMPT_TEMPLATE_before_question
       @ question @ PROMPT_TEMPLATE_end"

definition BEDROCK_MODEL_ID :: string where
  "BEDROCK_MODEL_ID = ''anthropic.claude-3-haiku-20240307-v1:0''"

record QueryResponse =
  response_query_text :: string
  response_text :: string
  response_sources :: "meta_value list"

text \<open>
  The collaborators of the query side. \<open>search q k\<close> is
  \<open>get_chroma_db().similarity_search_with_score(q, k=k)\<close>; \<open>generate m p\<close> is
  \<open>ChatBedrock(model_id=m).invoke(p).content\<close>; each returns or raises. The three
  remaining fields say which exception, if any, DynamoDB raises for a \<open>put_item\<close> of an
  item and a \<open>get_item\<close> of a key, and the Lambda client for an \<open>invoke\<close>.
\<close>

record backend =
  search :: "string \<Rightarrow> nat \<Rightarrow> exn + (document \<times> real) list"
  generate :: "string \<Rightarrow> string \<Rightarrow> exn + string"
  ddb_put_error :: "string \<Rightarrow> exn option"
  ddb_get_error :: "string \<Rightarrow> exn option"
  lambda_invoke_error :: "exn option"

text \<open>The loop that groups the retrieved contents by \<open>metadata.get("type", "text")\<close>.\<close>

fun group_context ::
  "(document \<times> real) list \<Rightarrow> string list \<Rightarrow> string list \<Rightarrow> string list
     \<Rightarrow> string list \<times> string list \<times> string list"
where
  "group_context [] text_context table_context image_context =
     (text_context, table_context, image_context)"
| "group_context ((doc, score) # results) text_context table_context image_context =
     (let content_type = doc_type doc in
      if content_type = MStr ''text''
      then group_context results (text_context @ [page_content doc]) table_context image_context
      else if content_type = MStr ''table''
      then group_context results text_context (table_context @ [page_content doc]) image_context
      else if content_type = MStr ''image''
      then group_context results text_context table_context
             (image_context @ [''Image (Base64): '' @ page_content doc])
      else group_context results text_context table_context image_context)"

definition context_text :: "(document \<times> real) list \<Rightarrow> string" where
  "context_text results =
     (case group_context results [] [] [] of
        (text_context, table_context, image_context) \<Rightarrow>
          ''### Text:\<newline>'' @ join ''\<newline>\<newline>'' text_context
          @ ''\<newline>\<newline>### Tables:\<newline>'' @ join ''\<newline>\<newline>'' table_context
          @ ''\<newline>\<newline>### Images:\<newline>'' @ join ''\<newline>\<newline>'' image_context)"

definition source_of :: "document \<Rightarrow> meta_value" where
  "source_of doc = (case map_of (metadata doc) ''id'' of None \<Rightarrow> MStr ''unknown'' | Some i \<Rightarrow> i)"

definition query_rag :: "backend \<Rightarrow> string \<Rightarrow> exn + QueryResponse" where
  "query_rag be question =
     (case search be question 5 of
        Inl e \<Rightarrow> Inl e
      | Inr results \<Rightarrow>
          (let prompt = format_prompt (context_text results) question;
               answer = (case generate be BEDROCK_MODEL_ID prompt of
                           Inr content \<Rightarrow> content
                         | Inl e \<Rightarrow> ''Error generating response: '' @ exn_str e);
               srcs = map (\<lambda>(doc, score). source_of doc) results
           in Inr \<lparr>response_query_text = question, response_text = answer,
                    response_sources = srcs\<rparr>))"

section \<open>\<open>query_model.py\<close>\<close>

text \<open>
  A job record. \<open>as_ddb_item\<close> leaves the fields that are \<open>None\<close> out of the stored item and
  \<open>cls(**item)\<close> gives an absent \<open>answer_text\<close> its default \<open>None\<close> back, so the stored
  item is the record itself. The table maps \<open>query_id\<close> to the stored item.
\<close>

record QueryModel =
  query_id :: string
  create_time :: int
  query_text :: string
  answer_text :: "string option"
  sources :: "meta_value list"
  is_complete :: bool

type_synonym ddb_table = "string \<rightharpoonup> QueryModel"

text \<open>\<open>put_item\<close>: a \<open>ClientError\<close> is printed and raised again; any other exception passes.\<close>

definition put_item :: "backend \<Rightarrow> QueryModel \<Rightarrow> ddb_table \<Rightarrow> (exn + unit) \<times> ddb_table" where
  "put_item be item tbl =
     (case ddb_put_error be (query_id item) of
        Some e \<Rightarrow> (Inl e, tbl)
      | None \<Rightarrow> (Inr (), tbl(query_id item \<mapsto> item)))"

text \<open>
  \<open>get_item\<close>: a \<open>ClientError\<close> is printed and \<open>None\<close> returned; any other exception
  passes; otherwise the item under the key, or \<open>None\<close> when the response has no \<open>Item\<close>.
\<close>

definition get_item :: "backend \<Rightarrow> string \<Rightarrow> ddb_table \<Rightarrow> exn + QueryModel option" where
  "get_item be qid tbl =
     (case ddb_get_error be qid of
        Some (ClientError m) \<Rightarrow> Inr None
      | Some (OtherException m) \<Rightarrow> Inl (OtherException m)
      | None \<Rightarrow> (case tbl qid of Some item \<Rightarrow> Inr (Some item) | None \<Rightarrow> Inr None))"

section \<open>\<open>app_work_handler.py\<close> and \<open>app_api_handler.py\<close>\<close>

text \<open>
  The state the handlers act on: the job table and the invocations sent to Lambda. A
  handler returns what the Python function returns or raises, and the state it leaves.
\<close>

record invocation =
  FunctionName :: string
  InvocationType :: string
  Payload :: QueryModel

record world =
  jobs :: ddb_table
  invocations :: "invocation list"

definition invoke_rag :: "backend \<Rightarrow> QueryModel \<Rightarrow> world \<Rightarrow> (exn + QueryModel) \<times> world" where
  "invoke_rag be query_item w =
     (case query_rag be (query_text query_item) of
        Inl e \<Rightarrow> (Inl e, w)
      | Inr rag_response \<Rightarrow>
          (let query_item = query_item\<lparr>answer_text := Some (response_text rag_response),
                                       sources := response_sources rag_response,
                                       is_complete := True\<rparr>
           in case put_item be query_item (jobs w) of
                (Inl e, tbl) \<Rightarrow> (Inl e, w\<lparr>jobs := tbl\<rparr>)
              | (Inr u, tbl) \<Rightarrow> (Inr query_item, w\<lparr>jobs := tbl\<rparr>)))"

text \<open>The worker's entry point: the event is the job record that was sent as payload.\<close>

definition handler :: "backend \<Rightarrow> QueryModel \<Rightarrow> world \<Rightarrow> (exn + unit) \<times> world" where
  "handler be event w =
     (case invoke_rag be event w of
        (Inl e, w') \<Rightarrow> (Inl e, w')
      | (Inr item, w') \<Rightarrow> (Inr (), w'))"

definition get_query_endpoint :: "backend \<Rightarrow> string \<Rightarrow> world \<Rightarrow> exn + QueryModel option" where
  "get_query_endpoint be qid w = get_item be qid (jobs w)"

text \<open>
  \<open>invoke_worker\<close> sends the dumped record to the function named by the module's
  \<open>WORKER_LAMBDA_NAME\<close> (a non-empty string whenever \<open>submit_query_endpoint\<close> calls it) with
  \<open>InvocationType="Event"\<close>, which returns without waiting for the worker.
\<close>

definition invoke_worker ::
  "backend \<Rightarrow> string option \<Rightarrow> QueryModel \<Rightarrow> world \<Rightarrow> (exn + unit) \<times> world"
where
  "invoke_worker be WORKER_LAMBDA_NAME query w =
     (case lambda_invoke_error be of
        Some e \<Rightarrow> (Inl e, w)
      | None \<Rightarrow>
          (Inr (), w\<lparr>invocations := invocations w
                       @ [\<lparr>FunctionName = (case WORKER_LAMBDA_NAME of Some name \<Rightarrow> name | None \<Rightarrow> []),
                            InvocationType = ''Event'', Payload = query\<rparr>]\<rparr>))"

text \<open>
  \<open>WORKER_LAMBDA_NAME\<close> is \<open>os.environ.get("WORKER_LAMBDA_NAME", None)\<close>; the \<open>if\<close> tests
  its truth value, which an unset and an empty variable both lack. \<open>new_id\<close> and \<open>now\<close>
  are what \<open>uuid4().hex\<close> and \<open>int(time.time())\<close> give the new record.
\<close>

definition truthy :: "string option \<Rightarrow> bool" where
  "truthy v = (case v of None \<Rightarrow> False | Some s \<Rightarrow> s \<noteq> [])"

definition new_QueryModel :: "string \<Rightarrow> int \<Rightarrow> string \<Rightarrow> QueryModel" where
  "new_QueryModel new_id now txt =
     \<lparr>query_id = new_id, create_time = now, query_text = txt, answer_text = None,
      sources = [], is_complete = False\<rparr>"

definition submit_query_endpoint ::
  "backend \<Rightarrow> string option \<Rightarrow> string \<Rightarrow> int \<Rightarrow> string \<Rightarrow> world \<Rightarrow> (exn + QueryModel) \<times> world"
where
  "submit_query_endpoint be WORKER_LAMBDA_NAME new_id now request_query_text w =
     (let new_query = new_QueryModel new_id now request_query_text in
      if truthy WORKER_LAMBDA_NAME
      then (case put_item be new_query (jobs w) of
              (Inl e, tbl) \<Rightarrow> (Inl e, w\<lparr>jobs := tbl\<rparr>)
            | (Inr u, tbl) \<Rightarrow>
                (case invoke_worker be WORKER_LAMBDA_NAME new_query (w\<lparr>jobs := tbl\<rparr>) of
                   (Inl e, w') \<Rightarrow> (Inl e, w')
                 | (Inr u', w') \<Rightarrow> (Inr new_query, w')))
      else (case query_rag be request_query_text of
              Inl e \<Rightarrow> (Inl e, w)
            | Inr query_response \<Rightarrow>
                (let new_query = new_query\<lparr>answer_text := Some (response_text query_response),
                                           sources := response_sources query_response,
                                           is_complete := True\<rparr>
                 in case put_item be new_query (jobs w) of
                      (Inl e, tbl) \<Rightarrow> (Inl e, w\<lparr>jobs := tbl\<rparr>)
                    | (Inr u, tbl) \<Rightarrow> (Inr new_query, w\<lparr>jobs := tbl\<rparr>))))"

section \<open>Properties\<close>

subsection \<open>Decimal rendering is injective\<close>

lemma str_nat_not_Nil: "str_nat n \<noteq> []"
  by (subst str_nat.simps) simp

lemma digit_char_inj: "a < 10 \<Longrightarrow> b < 10 \<Longrightarrow> digit_char a = digit_char b \<Longrightarrow> a = b"
proof -
  assume a: "a < 10" and b: "b < 10" and e: "digit_char a = digit_char b"
  from e have "of_char (char_of (48 + a) :: char) = (of_char (char_of (48 + b) :: char) :: nat)"
    by (simp add: digit_char_def)
  with a b show "a = b" by simp
qed

lemma str_nat_inj: "str_nat n = str_nat m \<Longrightarrow> n = m"
proof (induction n arbitrary: m rule: str_nat.induct)
  case (1 n)
  show ?case
  proof (cases "n < 10")
    case small_n: True
    show ?thesis
    proof (cases "m < 10")
      case True
      with small_n "1.prems" show ?thesis
        by (simp add: str_nat.simps [of n] str_nat.simps [of m] digit_char_inj)
    next
      case False
      with small_n "1.prems" str_nat_not_Nil [of "m div 10"] show ?thesis
        by (simp add: str_nat.simps [of n] str_nat.simps [of m])
    qed
  next
    case big_n: False
    show ?thesis
    proof (cases "m < 10")
      case True
      with big_n "1.prems" str_nat_not_Nil [of "n div 10"] show ?thesis
        by (simp add: str_nat.simps [of n] str_nat.simps [of m])
    next
      case False
      with big_n "1.prems" have eq: "str_nat (n div 10) = str_nat (m div 10)"
        and d: "digit_char (n mod 10) = digit_char (m mod 10)"
        by (simp_all add: str_nat.simps [of n] str_nat.simps [of m])
      from "1.IH" [OF big_n eq] have "n div 10 = m div 10" .
      moreover from d have "n mod 10 = m mod 10"
        by (intro digit_char_inj) simp_all
      ultimately show ?thesis
        by (metis div_mult_mod_eq)
    qed
  qed
qed

lemma digit_char_code: "d < 10 \<Longrightarrow> of_char (digit_char d) = 48 + d"
  by (simp add: digit_char_def)

lemma str_nat_digits: "c \<in> set (str_nat n) \<Longrightarrow> \<exists>d < 10. c = digit_char d"
proof (induction n rule: str_nat.induct)
  case (1 n)
  show ?case
  proof (cases "n < 10")
    case True
    with "1.prems" show ?thesis
      by (auto simp: str_nat.simps [of n])
  next
    case False
    with "1.prems" have "c \<in> set (str_nat (n div 10)) \<or> c = digit_char (n mod 10)"
      by (auto simp: str_nat.simps [of n])
    then show ?thesis
    proof
      assume "c \<in> set (str_nat (n div 10))"
      with "1.IH" False show ?thesis by simp
    next
      assume "c = digit_char (n mod 10)"
      moreover have "n mod 10 < 10" by simp
      ultimately show ?thesis by blast
    qed
  qed
qed

lemma str_nat_no_minus: "CHR ''-'' \<notin> set (str_nat n)"
proof
  assume "CHR ''-'' \<in> set (str_nat n)"
  from str_nat_digits [OF this] obtain d where d: "d < 10" "CHR ''-'' = digit_char d"
    by blast
  from d(2) have "(of_char (CHR ''-'') :: nat) = of_char (digit_char d)" by simp
  with d(1) show False by (simp add: digit_char_code)
qed

lemma str_nat_no_colon: "CHR '':'' \<notin> set (str_nat n)"
proof
  assume "CHR '':'' \<in> set (str_nat n)"
  from str_nat_digits [OF this] obtain d where d: "d < 10" "CHR '':'' = digit_char d"
    by blast
  from d(2) have "(of_char (CHR '':'') :: nat) = of_char (digit_char d)" by simp
  with d(1) show False by (simp add: digit_char_code)
qed

lemma str_int_no_colon: "CHR '':'' \<notin> set (str_int i)"
  by (simp add: str_int_def str_nat_no_colon)

lemma str_int_inj: "str_int a = str_int b \<Longrightarrow> a = b"
proof -
  assume e: "str_int a = str_int b"
  have hd_nat: "hd (str_nat n) \<noteq> CHR ''-''" for n
    using str_nat_no_minus [of n] str_nat_not_Nil [of n] by (cases "str_nat n") auto
  show "a = b"
  proof (cases "a < 0")
    case a: True
    show ?thesis
    proof (cases "b < 0")
      case True
      with a e have "str_nat (nat (- a)) = str_nat (nat (- b))"
        by (simp add: str_int_def)
      from str_nat_inj [OF this] a True show ?thesis by simp
    next
      case False
      with a e hd_nat [of "nat b"] show ?thesis
        by (auto simp: str_int_def dest: arg_cong [where f = hd])
    qed
  next
    case a: False
    show ?thesis
    proof (cases "b < 0")
      case True
      with a e hd_nat [of "nat a"] show ?thesis
        by (auto simp: str_int_def dest: arg_cong [where f = hd])
    next
      case False
      with a e have "str_nat (nat a) = str_nat (nat b)"
        by (simp add: str_int_def)
      from str_nat_inj [OF this] a False show ?thesis by simp
    qed
  qed
qed

subsection \<open>Order of the extracted units\<close>

lemma extract_images_acc:
  "extract_images b64 fp pn i imgs docs
     = docs @ map (\<lambda>(j, img). image_document fp pn j (b64 img)) (List.enumerate i imgs)"
  by (induction imgs arbitrary: i docs) simp_all

lemma extract_tables_acc:
  "extract_tables fp pn i blocks docs
     = docs @ map (\<lambda>(j, b). table_document fp pn j (table_content (block_lines b)))
                (filter (\<lambda>(j, b). is_table (block_lines b)) (List.enumerate i blocks))"
  by (induction blocks arbitrary: i docs) (simp_all add: Let_def)

lemma extract_page_eq:
  "extract_page b64 fp pn page docs
     = docs @ (if strip (page_text page) \<noteq> [] then [text_document fp pn (page_text page)] else [])
       @ map (\<lambda>(j, img). image_document fp pn j (b64 img)) (List.enumerate 0 (page_images page))
       @ map (\<lambda>(j, b). table_document fp pn j (table_content (block_lines b)))
           (filter (\<lambda>(j, b). is_table (block_lines b)) (List.enumerate 0 (page_blocks page)))"
  by (simp add: extract_page_def Let_def extract_images_acc extract_tables_acc)

lemma extract_page_acc:
  "extract_page b64 fp pn page docs = docs @ extract_page b64 fp pn page []"
  by (simp add: extract_page_eq)

lemma extract_pages_acc:
  "extract_pages b64 fp pn pages docs = docs @ extract_pages b64 fp pn pages []"
proof (induction pages arbitrary: pn docs)
  case Nil
  show ?case by simp
next
  case (Cons page pages)
  have "extract_pages b64 fp pn (page # pages) docs
          = extract_pages b64 fp (Suc pn) pages (docs @ extract_page b64 fp pn page [])"
    using extract_page_acc [of b64 fp pn page docs] by simp
  also have "\<dots> = (docs @ extract_page b64 fp pn page []) @ extract_pages b64 fp (Suc pn) pages []"
    by (rule Cons.IH)
  also have "\<dots> = docs @ extract_pages b64 fp pn (page # pages) []"
    using Cons.IH [of "Suc pn" "extract_page b64 fp pn page []"] by simp
  finally show ?case .
qed

lemma extract_pages_Cons:
  "extract_pages b64 fp pn (page # pages) []
     = extract_page b64 fp pn page [] @ extract_pages b64 fp (Suc pn) pages []"
  using extract_pages_acc [of b64 fp "Suc pn" pages "extract_page b64 fp pn page []"] by simp

lemma page_number_simps:
  "page_number (text_document fp pn t) = int pn + 1"
  "page_number (image_document fp pn j i) = int pn + 1"
  "page_number (table_document fp pn j c) = int pn + 1"
  by (simp_all add: page_number_def text_document_def image_document_def table_document_def)

lemma doc_type_simps:
  "doc_type (text_document fp pn t) = MStr ''text''"
  "doc_type (image_document fp pn j i) = MStr ''image''"
  "doc_type (table_document fp pn j c) = MStr ''table''"
  by (simp_all add: doc_type_def text_document_def image_document_def table_document_def)

lemma extract_page_page_number:
  "d \<in> set (extract_page b64 fp pn page []) \<Longrightarrow> page_number d = int pn + 1"
  by (auto simp: extract_page_eq page_number_simps split: if_splits)

lemma extract_page_text_unit:
  "d \<in> set (extract_page b64 fp pn page []) \<Longrightarrow> doc_type d = MStr ''text'' \<Longrightarrow>
     strip (page_text page) \<noteq> [] \<and> d = text_document fp pn (page_text page)"
  by (auto simp: extract_page_eq doc_type_simps split: if_splits)

lemma sorted_wrt_all: "(\<And>x y. P x y) \<Longrightarrow> sorted_wrt P xs"
  by (induction xs) simp_all

lemma extract_page_sorted:
  "sorted_wrt (emitted_before rank_text_image_table) (extract_page b64 fp pn page [])"
proof -
  have "sorted_wrt (emitted_before rank_text_image_table)
          (map (\<lambda>(j, img). image_document fp pn j (b64 img)) xs)" for xs :: "(nat \<times> string) list"
    unfolding sorted_wrt_map
    by (rule sorted_wrt_all)
      (simp add: emitted_before_def page_number_simps doc_type_simps split: prod.splits)
  moreover have "sorted_wrt (emitted_before rank_text_image_table)
          (map (\<lambda>(j, b). table_document fp pn j (table_content (block_lines b))) ys)"
    for ys :: "(nat \<times> pdf_block) list"
    unfolding sorted_wrt_map
    by (rule sorted_wrt_all)
      (simp add: emitted_before_def page_number_simps doc_type_simps split: prod.splits)
  ultimately show ?thesis
    by (auto simp: extract_page_eq sorted_wrt_append emitted_before_def
        page_number_simps doc_type_simps rank_text_image_table_def)
qed

lemma extract_pages_page_number:
  "d \<in> set (extract_pages b64 fp pn pages []) \<Longrightarrow> int pn < page_number d"
proof (induction pages arbitrary: pn)
  case Nil
  then show ?case by simp
next
  case (Cons page pages)
  from Cons.prems have "d \<in> set (extract_page b64 fp pn page []) \<or>
      d \<in> set (extract_pages b64 fp (Suc pn) pages [])"
    by (simp add: extract_pages_Cons del: extract_pages.simps)
  then show ?case
  proof
    assume "d \<in> set (extract_page b64 fp pn page [])"
    then show ?thesis by (simp add: extract_page_page_number)
  next
    assume "d \<in> set (extract_pages b64 fp (Suc pn) pages [])"
    from Cons.IH [OF this] show ?thesis by simp
  qed
qed

lemma extract_pages_sorted:
  "sorted_wrt (emitted_before rank_text_image_table) (extract_pages b64 fp pn pages [])"
proof (induction pages arbitrary: pn)
  case Nil
  show ?case by simp
next
  case (Cons page pages)
  have "emitted_before rank_text_image_table a b"
    if "a \<in> set (extract_page b64 fp pn page [])"
      and "b \<in> set (extract_pages b64 fp (Suc pn) pages [])" for a b
    using extract_page_page_number [OF that(1)] extract_pages_page_number [OF that(2)]
    by (simp add: emitted_before_def)
  with Cons.IH [of "Suc pn"] extract_page_sorted [of b64 fp pn page] show ?case
    by (simp add: extract_pages_Cons sorted_wrt_append del: extract_pages.simps)
qed

lemma extract_pages_text_unit:
  "d \<in> set (extract_pages b64 fp pn pages []) \<Longrightarrow> doc_type d = MStr ''text'' \<Longrightarrow>
     \<exists>k < length pages. page_number d = int (pn + k) + 1 \<and> strip (page_text (pages ! k)) \<noteq> []
        \<and> page_content d = page_text (pages ! k)"
proof (induction pages arbitrary: pn)
  case Nil
  then show ?case by simp
next
  case (Cons page pages)
  from Cons.prems(1) have "d \<in> set (extract_page b64 fp pn page []) \<or>
      d \<in> set (extract_pages b64 fp (Suc pn) pages [])"
    by (simp add: extract_pages_Cons del: extract_pages.simps)
  then show ?case
  proof
    assume "d \<in> set (extract_page b64 fp pn page [])"
    from extract_page_text_unit [OF this Cons.prems(2)]
    have "page_number d = int (pn + 0) + 1 \<and> strip (page_text ((page # pages) ! 0)) \<noteq> []
        \<and> page_content d = page_text ((page # pages) ! 0)"
      by (auto simp: page_number_simps) (simp add: text_document_def)
    then show ?thesis by blast
  next
    assume "d \<in> set (extract_pages b64 fp (Suc pn) pages [])"
    from Cons.IH [OF this Cons.prems(2)] obtain k where
      "k < length pages" "page_number d = int (Suc pn + k) + 1"
      "strip (page_text (pages ! k)) \<noteq> []" "page_content d = page_text (pages ! k)"
      by blast
    then have "Suc k < length (page # pages) \<and> page_number d = int (pn + Suc k) + 1
        \<and> strip (page_text ((page # pages) ! Suc k)) \<noteq> []
        \<and> page_content d = page_text ((page # pages) ! Suc k)"
      by simp
    then show ?thesis by blast
  qed
qed

lemma extract_pages_eq:
  "extract_pages b64 fp pn pages []
     = concat (map (\<lambda>(k, page). extract_page b64 fp k page []) (List.enumerate pn pages))"
proof (induction pages arbitrary: pn)
  case Nil
  show ?case by simp
next
  case (Cons page pages)
  from Cons.IH [of "Suc pn"] show ?case
    by (simp add: extract_pages_Cons del: extract_pages.simps)
qed

lemma extract_pages_page_units:
  "k < length pages \<Longrightarrow>
     set (extract_page b64 fp (pn + k) (pages ! k) []) \<subseteq> set (extract_pages b64 fp pn pages [])"
proof (induction pages arbitrary: pn k)
  case Nil
  then show ?case by simp
next
  case (Cons page pages)
  show ?case
  proof (cases k)
    case 0
    then show ?thesis
      by (simp add: extract_pages_Cons del: extract_pages.simps)
  next
    case (Suc k')
    with Cons.prems have "k' < length pages" by simp
    from Cons.IH [OF this, of "Suc pn"] Suc show ?thesis
      by (auto simp: extract_pages_Cons simp del: extract_pages.simps)
  qed
qed

lemma extract_page_image_unit:
  "j < length (page_images page) \<Longrightarrow>
     image_document fp pn j (b64 (page_images page ! j)) \<in> set (extract_page b64 fp pn page [])"
proof -
  assume "j < length (page_images page)"
  then have "(j, page_images page ! j) \<in> set (List.enumerate 0 (page_images page))"
    by (simp add: in_set_enumerate_eq)
  then have "image_document fp pn j (b64 (page_images page ! j))
      \<in> (\<lambda>(j, img). image_document fp pn j (b64 img)) ` set (List.enumerate 0 (page_images page))"
    by (rule rev_image_eqI) simp
  then show ?thesis
    by (simp add: extract_page_eq)
qed

lemma extract_page_table_unit:
  "j < length (page_blocks page) \<Longrightarrow> is_table (block_lines (page_blocks page ! j)) \<Longrightarrow>
     table_document fp pn j (table_content (block_lines (page_blocks page ! j)))
       \<in> set (extract_page b64 fp pn page [])"
proof -
  assume "j < length (page_blocks page)" and tbl: "is_table (block_lines (page_blocks page ! j))"
  then have "(j, page_blocks page ! j) \<in> set (List.enumerate 0 (page_blocks page))"
    by (simp add: in_set_enumerate_eq)
  with tbl have "(j, page_blocks page ! j)
      \<in> set (filter (\<lambda>(j, b). is_table (block_lines b)) (List.enumerate 0 (page_blocks page)))"
    by simp
  then have "table_document fp pn j (table_content (block_lines (page_blocks page ! j)))
      \<in> (\<lambda>(j, b). table_document fp pn j (table_content (block_lines b)))
          ` set (filter (\<lambda>(j, b). is_table (block_lines b)) (List.enumerate 0 (page_blocks page)))"
    by (rule rev_image_eqI) simp
  then show ?thesis
    by (simp add: extract_page_eq)
qed

text \<open>
  C7, as the code has it. The units of a document are, page by page in ascending order,
  the text unit of the page (only if its text is not empty or whitespace), then one image
  unit per image of the page, then one table unit per block of the page that passes the
  table test. So the units come out by ascending page and, within a page, text first, then
  images, then tables; a page whose text is empty or only whitespace gets no text unit,
  and every image and every table block of every page, such a page included, has its
  unit in the output.
\<close>

theorem extract_pdf_content_order:
  assumes "extract_pdf_content b64 file_path (Inr pdf_document) = Inr docs"
  shows "docs = concat (map (\<lambda>(k, page).
                   (if strip (page_text page) \<noteq> []
                    then [text_document file_path k (page_text page)] else [])
                   @ map (\<lambda>(j, img). image_document file_path k j (b64 img))
                       (List.enumerate 0 (page_images page))
                   @ map (\<lambda>(j, b). table_document file_path k j (table_content (block_lines b)))
                       (filter (\<lambda>(j, b). is_table (block_lines b))
                          (List.enumerate 0 (page_blocks page))))
                 (List.enumerate 0 pdf_document))
         \<and> sorted_wrt (emitted_before rank_text_image_table) docs
         \<and> (\<forall>k < length pdf_document. strip (page_text (pdf_document ! k)) = [] \<longrightarrow>
              \<not> (\<exists>d \<in> set docs. doc_type d = MStr ''text'' \<and> page_number d = int k + 1))
         \<and> (\<forall>k < length pdf_document. \<forall>j < length (page_images (pdf_document ! k)).
              image_document file_path k j (b64 (page_images (pdf_document ! k) ! j)) \<in> set docs)
         \<and> (\<forall>k < length pdf_document. \<forall>j < length (page_blocks (pdf_document ! k)).
              is_table (block_lines (page_blocks (pdf_document ! k) ! j)) \<longrightarrow>
              table_document file_path k j
                (table_content (block_lines (page_blocks (pdf_document ! k) ! j))) \<in> set docs)"
proof -
  from assms have docs: "docs = extract_pages b64 file_path 0 pdf_document []"
    by (simp add: extract_pdf_content_def)
  have exact: "docs = concat (map (\<lambda>(k, page).
                   (if strip (page_text page) \<noteq> []
                    then [text_document file_path k (page_text page)] else [])
                   @ map (\<lambda>(j, img). image_document file_path k j (b64 img))
                       (List.enumerate 0 (page_images page))
                   @ map (\<lambda>(j, b). table_document file_path k j (table_content (block_lines b)))
                       (filter (\<lambda>(j, b). is_table (block_lines b))
                          (List.enumerate 0 (page_blocks page))))
                 (List.enumerate 0 pdf_document))"
    unfolding docs extract_pages_eq by (simp add: extract_page_eq)
  have ordered: "sorted_wrt (emitted_before rank_text_image_table) docs"
    unfolding docs by (rule extract_pages_sorted)
  have no_text: "\<not> (\<exists>d \<in> set docs. doc_type d = MStr ''text'' \<and> page_number d = int k + 1)"
    if "k < length pdf_document" "strip (page_text (pdf_document ! k)) = []" for k
  proof
    assume "\<exists>d \<in> set docs. doc_type d = MStr ''text'' \<and> page_number d = int k + 1"
    then obtain d where d: "d \<in> set docs" "doc_type d = MStr ''text''" "page_number d = int k + 1"
      by blast
    from extract_pages_text_unit [OF d(1) [unfolded docs] d(2)] obtain j where
      "page_number d = int (0 + j) + 1" "strip (page_text (pdf_document ! j)) \<noteq> []"
      by blast
    with d(3) that(2) show False by simp
  qed
  have images: "image_document file_path k j (b64 (page_images (pdf_document ! k) ! j)) \<in> set docs"
    if "k < length pdf_document" "j < length (page_images (pdf_document ! k))" for k j
    using extract_pages_page_units [OF that(1), of b64 file_path 0]
      extract_page_image_unit [OF that(2), of file_path k b64]
    unfolding docs by auto
  have tables: "table_document file_path k j
        (table_content (block_lines (page_blocks (pdf_document ! k) ! j))) \<in> set docs"
    if "k < length pdf_document" "j < length (page_blocks (pdf_document ! k))"
      "is_table (block_lines (page_blocks (pdf_document ! k) ! j))" for k j
    using extract_pages_page_units [OF that(1), of b64 file_path 0]
      extract_page_table_unit [OF that(2,3), of file_path k b64]
    unfolding docs by auto
  from exact ordered no_text images tables show ?thesis
    by blast
qed

text \<open>
  Page 2 of the document has only whitespace as text, one image and one block of two
  lines: it gets no text unit, and its image unit and its table unit are emitted.
\<close>

theorem extract_pdf_content_order_witness:
  "\<forall>b64. \<exists>docs.
     extract_pdf_content b64 ''a.pdf''
       (Inr [\<lparr>page_text = ''a\<newline>b\<newline>'', page_images = [''PNG''],
              page_blocks = [TextBlock [[''a''], [''b'']]]\<rparr>,
             \<lparr>page_text = '' \<newline> \<newline>'', page_images = [''JPG''],
              page_blocks = [TextBlock [['' ''], ['' '']]]\<rparr>]) = Inr docs
     \<and> sorted_wrt (emitted_before rank_text_image_table) docs
     \<and> \<not> (\<exists>d \<in> set docs. doc_type d = MStr ''text'' \<and> page_number d = 2)
     \<and> image_document ''a.pdf'' 1 0 (b64 ''JPG'') \<in> set docs
     \<and> table_document ''a.pdf'' 1 0 '' \<newline> '' \<in> set docs"
proof
  fix b64 :: "string \<Rightarrow> string"
  let ?pdf = "[\<lparr>page_text = ''a\<newline>b\<newline>'', page_images = [''PNG''],
              page_blocks = [TextBlock [[''a''], [''b'']]]\<rparr>,
             \<lparr>page_text = '' \<newline> \<newline>'', page_images = [''JPG''],
              page_blocks = [TextBlock [['' ''], ['' '']]]\<rparr>]"
  let ?docs = "extract_pages b64 ''a.pdf'' 0 ?pdf []"
  have run: "extract_pdf_content b64 ''a.pdf'' (Inr ?pdf) = Inr ?docs"
    by (simp add: extract_pdf_content_def)
  note inst = extract_pdf_content_order [OF run]
  have blank: "strip (page_text (?pdf ! 1)) = []"
    by (simp add: strip_def isspace_def)
  have ordered: "sorted_wrt (emitted_before rank_text_image_table) ?docs"
    using inst by blast
  have "\<not> (\<exists>d \<in> set ?docs. doc_type d = MStr ''text'' \<and> page_number d = int 1 + 1)"
    using inst [THEN conjunct2, THEN conjunct2, THEN conjunct1, rule_format, of 1] blank
    by simp
  then have no_text: "\<not> (\<exists>d \<in> set ?docs. doc_type d = MStr ''text'' \<and> page_number d = 2)"
    by simp
  have "image_document ''a.pdf'' 1 0 (b64 (page_images (?pdf ! 1) ! 0)) \<in> set ?docs"
    by (rule inst [THEN conjunct2, THEN conjunct2, THEN conjunct2, THEN conjunct1, rule_format])
      simp_all
  then have image: "image_document ''a.pdf'' 1 0 (b64 ''JPG'') \<in> set ?docs"
    by simp
  have "table_document ''a.pdf'' 1 0 (table_content (block_lines (page_blocks (?pdf ! 1) ! 0)))
      \<in> set ?docs"
    by (rule inst [THEN conjunct2, THEN conjunct2, THEN conjunct2, THEN conjunct2, rule_format])
      (simp_all add: is_table_def)
  then have table: "table_document ''a.pdf'' 1 0 '' \<newline> '' \<in> set ?docs"
    by (simp add: table_content_def)
  show "\<exists>docs. extract_pdf_content b64 ''a.pdf'' (Inr ?pdf) = Inr docs
     \<and> sorted_wrt (emitted_before rank_text_image_table) docs
     \<and> \<not> (\<exists>d \<in> set docs. doc_type d = MStr ''text'' \<and> page_number d = 2)
     \<and> image_document ''a.pdf'' 1 0 (b64 ''JPG'') \<in> set docs
     \<and> table_document ''a.pdf'' 1 0 '' \<newline> '' \<in> set docs"
    by (intro exI [of _ ?docs] conjI run ordered no_text image table)
qed

text \<open>
  The claim as stated fails on a two-page document. Page 1 has text, one image and one
  two-line block: its image unit comes out before its table unit. Page 2 has only
  whitespace as text and one image: a unit is emitted for it all the same.
\<close>

theorem extract_pdf_content_order_counterexample:
  "\<forall>b64. \<exists>docs.
     extract_pdf_content b64 ''a.pdf''
       (Inr [\<lparr>page_text = ''a\<newline>b\<newline>'', page_images = [''PNG''],
              page_blocks = [TextBlock [[''a''], [''b'']]]\<rparr>,
             \<lparr>page_text = '' \<newline>'', page_images = [''JPG''], page_blocks = [ImageBlock]\<rparr>]) = Inr docs
     \<and> map (\<lambda>d. (page_number d, doc_type d)) docs
         = [(1, MStr ''text''), (1, MStr ''image''), (1, MStr ''table''), (2, MStr ''image'')]
     \<and> \<not> sorted_wrt (emitted_before rank_text_table_image) docs
     \<and> strip '' \<newline>'' = []"
proof
  fix b64 :: "string \<Rightarrow> string"
  let ?pdf = "[\<lparr>page_text = ''a\<newline>b\<newline>'', page_images = [''PNG''],
              page_blocks = [TextBlock [[''a''], [''b'']]]\<rparr>,
             \<lparr>page_text = '' \<newline>'', page_images = [''JPG''], page_blocks = [ImageBlock]\<rparr>]"
  let ?docs = "[text_document ''a.pdf'' 0 ''a\<newline>b\<newline>'', image_document ''a.pdf'' 0 0 (b64 ''PNG''),
                table_document ''a.pdf'' 0 0 ''a\<newline>b'', image_document ''a.pdf'' 1 0 (b64 ''JPG'')]"
  have run: "extract_pdf_content b64 ''a.pdf'' (Inr ?pdf) = Inr ?docs"
    by (simp add: extract_pdf_content_def extract_page_def strip_def isspace_def is_table_def
          table_content_def Let_def)
  have kinds: "map (\<lambda>d. (page_number d, doc_type d)) ?docs
         = [(1, MStr ''text''), (1, MStr ''image''), (1, MStr ''table''), (2, MStr ''image'')]"
    by (simp add: page_number_simps doc_type_simps)
  have order: "\<not> sorted_wrt (emitted_before rank_text_table_image) ?docs"
    by (simp add: emitted_before_def page_number_simps doc_type_simps rank_text_table_image_def)
  have blank: "strip '' \<newline>'' = []"
    by (simp add: strip_def isspace_def)
  show "\<exists>docs. extract_pdf_content b64 ''a.pdf'' (Inr ?pdf) = Inr docs
     \<and> map (\<lambda>d. (page_number d, doc_type d)) docs
         = [(1, MStr ''text''), (1, MStr ''image''), (1, MStr ''table''), (2, MStr ''image'')]
     \<and> \<not> sorted_wrt (emitted_before rank_text_table_image) docs
     \<and> strip '' \<newline>'' = []"
    by (intro exI [of _ ?docs] conjI run kinds order blank)
qed

subsection \<open>A document that cannot be opened\<close>

lemma load_loop_ok:
  "list_all (\<lambda>(n, opened). endswith (lower n) ''.pdf'' \<longrightarrow> (\<exists>pdf. opened = Inr pdf)) files \<Longrightarrow>
   load_loop b64 files docs
     = Inr (docs @ concat (map (\<lambda>(n, opened). case opened of
                                   Inr pdf \<Rightarrow> extract_pages b64 (path_join DATA_SOURCE_PATH n) 0 pdf []
                                 | Inl e \<Rightarrow> [])
                             (filter (\<lambda>(n, opened). endswith (lower n) ''.pdf'') files)))"
proof (induction files arbitrary: docs)
  case Nil
  show ?case by simp
next
  case (Cons f files)
  obtain n opened where f: "f = (n, opened)" by (cases f)
  from Cons.prems have rest: "list_all (\<lambda>(n, opened). endswith (lower n) ''.pdf''
      \<longrightarrow> (\<exists>pdf. opened = Inr pdf)) files"
    by simp
  show ?case
  proof (cases "endswith (lower n) ''.pdf''")
    case True
    with Cons.prems f obtain pdf where "opened = Inr pdf" by auto
    with True f Cons.IH [OF rest] show ?thesis
      by (simp add: extract_pdf_content_def)
  next
    case False
    with f Cons.IH [OF rest] show ?thesis by simp
  qed
qed

lemma load_loop_fail:
  "list_all (\<lambda>(n, opened). endswith (lower n) ''.pdf'' \<longrightarrow> (\<exists>pdf. opened = Inr pdf)) pre \<Longrightarrow>
   endswith (lower name) ''.pdf'' \<Longrightarrow>
   load_loop b64 (pre @ (name, Inl e) # post) docs = Inl e"
proof (induction pre arbitrary: docs)
  case Nil
  then show ?case by (simp add: extract_pdf_content_def)
next
  case (Cons f pre)
  obtain n opened where f: "f = (n, opened)" by (cases f)
  from Cons.prems have rest: "list_all (\<lambda>(n, opened). endswith (lower n) ''.pdf''
      \<longrightarrow> (\<exists>pdf. opened = Inr pdf)) pre"
    by simp
  show ?case
  proof (cases "endswith (lower n) ''.pdf''")
    case True
    with Cons.prems f obtain pdf where "opened = Inr pdf" by auto
    with True f Cons.IH [OF rest Cons.prems(2)] show ?thesis
      by (simp add: extract_pdf_content_def)
  next
    case False
    with f Cons.IH [OF rest Cons.prems(2)] show ?thesis by simp
  qed
qed

text \<open>
  C8, as the code has it. While every PDF of the listing opens, \<open>load_documents\<close> returns
  the units of all of them in listing order (files that are not PDFs are skipped). The
  first PDF that fails to open ends \<open>load_documents\<close> with its exception: no units are
  returned, neither of the failed document nor of the ones read before it, the files
  after it are not read, and \<open>main\<close> ends with that exception without writing to the index.
\<close>

theorem load_documents_first_failure:
  assumes "list_all (\<lambda>(n, opened). endswith (lower n) ''.pdf'' \<longrightarrow> (\<exists>pdf. opened = Inr pdf)) pre"
  shows "load_documents b64 pre
           = Inr (concat (map (\<lambda>(n, opened). case opened of
                                   Inr pdf \<Rightarrow> extract_pages b64 (path_join DATA_SOURCE_PATH n) 0 pdf []
                                 | Inl e \<Rightarrow> [])
                             (filter (\<lambda>(n, opened). endswith (lower n) ''.pdf'') pre)))
         \<and> (endswith (lower name) ''.pdf'' \<longrightarrow>
              load_documents b64 (pre @ (name, Inl e) # post) = Inl e
              \<and> main h splitter b64 reset (pre @ (name, Inl e) # post) db
                  = (Inl e, if reset then [] else db))"
  using load_loop_ok [OF assms, of b64 "[]"] load_loop_fail [OF assms, of name b64 e post "[]"]
  by (simp add: load_documents_def main_def clear_database_def Let_def)

theorem load_documents_first_failure_witness:
  "\<forall>b64. load_documents b64
       [(''notes.txt'', Inl (OtherException ''not opened'')),
        (''good.PDF'', Inr [\<lparr>page_text = ''Robots are built at AIR Lab.'', page_images = [],
                             page_blocks = []\<rparr>])]
     = Inr [\<lparr>page_content = ''Robots are built at AIR Lab.'',
             metadata = [(''source'', MStr ''src/data/source/good.PDF''), (''page'', MInt 1)]\<rparr>]
   \<and> load_documents b64
       [(''notes.txt'', Inl (OtherException ''not opened'')),
        (''good.PDF'', Inr [\<lparr>page_text = ''Robots are built at AIR Lab.'', page_images = [],
                             page_blocks = []\<rparr>]),
        (''broken.pdf'', Inl (OtherException ''Failed to open file'')),
        (''later.pdf'', Inr [])]
     = Inl (OtherException ''Failed to open file'')"
proof
  fix b64 :: "string \<Rightarrow> string"
  let ?pre = "[(''notes.txt'', Inl (OtherException ''not opened'')),
        (''good.PDF'', Inr [\<lparr>page_text = ''Robots are built at AIR Lab.'', page_images = [],
                             page_blocks = []\<rparr>])]"
  have pdf: "endswith (lower ''broken.pdf'') ''.pdf''" "endswith (lower ''good.PDF'') ''.pdf''"
    "\<not> endswith (lower ''notes.txt'') ''.pdf''"
    by code_simp+
  then have pre: "list_all (\<lambda>(n, opened). endswith (lower n) ''.pdf'' \<longrightarrow> (\<exists>pdf. opened = Inr pdf)) ?pre"
    by simp
  from load_documents_first_failure [OF pre, of b64 "''broken.pdf''"
      "OtherException ''Failed to open file''" "[(''later.pdf'', Inr [])]"] pdf
  show "load_documents b64 ?pre
     = Inr [\<lparr>page_content = ''Robots are built at AIR Lab.'',
             metadata = [(''source'', MStr ''src/data/source/good.PDF''), (''page'', MInt 1)]\<rparr>]
   \<and> load_documents b64
       [(''notes.txt'', Inl (OtherException ''not opened'')),
        (''good.PDF'', Inr [\<lparr>page_text = ''Robots are built at AIR Lab.'', page_images = [],
                             page_blocks = []\<rparr>]),
        (''broken.pdf'', Inl (OtherException ''Failed to open file'')),
        (''later.pdf'', Inr [])]
     = Inl (OtherException ''Failed to open file'')"
    by (simp add: extract_page_def strip_def isspace_def text_document_def path_join_def
          DATA_SOURCE_PATH_def Let_def)
qed

text \<open>
  The claim as stated fails: \<open>good.pdf\<close> alone yields one text unit, but listed after a
  PDF that cannot be opened it is never read; \<open>load_documents\<close> and the whole run end
  with the exception and the index stays empty.
\<close>

theorem load_documents_isolation_counterexample:
  "\<forall>h splitter b64.
     extract_pdf_content b64 (path_join DATA_SOURCE_PATH ''good.pdf'')
         (Inr [\<lparr>page_text = ''Robots are built at AIR Lab.'', page_images = [], page_blocks = []\<rparr>])
       = Inr [\<lparr>page_content = ''Robots are built at AIR Lab.'',
               metadata = [(''source'', MStr ''src/data/source/good.pdf''), (''page'', MInt 1)]\<rparr>]
     \<and> load_documents b64
         [(''broken.pdf'', Inl (OtherException ''Failed to open file'')),
          (''good.pdf'', Inr [\<lparr>page_text = ''Robots are built at AIR Lab.'', page_images = [],
                               page_blocks = []\<rparr>])]
       = Inl (OtherException ''Failed to open file'')
     \<and> main h splitter b64 False
         [(''broken.pdf'', Inl (OtherException ''Failed to open file'')),
          (''good.pdf'', Inr [\<lparr>page_text = ''Robots are built at AIR Lab.'', page_images = [],
                               page_blocks = []\<rparr>])] []
       = (Inl (OtherException ''Failed to open file''), [])"
proof -
  have pdf: "endswith (lower ''broken.pdf'') ''.pdf''"
    by code_simp
  then show ?thesis
    by (simp add: main_def load_documents_def extract_pdf_content_def extract_page_def strip_def
          isspace_def text_document_def path_join_def DATA_SOURCE_PATH_def Let_def)
qed

subsection \<open>Splitting\<close>

lemma split_documents_single:
  "split_documents splitter [doc]
     = map (\<lambda>chunk. \<lparr>page_content = chunk, metadata = metadata doc\<rparr>)
         (splitter 5000 200 (page_content doc))"
  by (simp add: split_documents_def)

lemma split_documents_chunk:
  "c \<in> set (split_documents splitter documents) \<Longrightarrow>
     \<exists>doc \<in> set documents. metadata c = metadata doc
        \<and> page_content c \<in> set (splitter 5000 200 (page_content doc))"
  by (auto simp: split_documents_def)

text \<open>
  C6, as the code has it. \<open>split_documents\<close> hands every unit, whatever its kind, to the
  splitter configured with chunk size 5000 and overlap 200: the output is, unit by unit
  in order, one chunk per piece the splitter returns for the unit's payload, each with the
  unit's metadata unchanged; two units with the same payload get the same pieces, be they
  text, table or image; and when the splitter keeps its pieces within 5000 characters, no
  output chunk is longer and no unit longer than 5000 characters, of any kind, is kept
  whole. The output is a function of the input list.
\<close>

theorem split_documents_every_kind:
  "split_documents splitter documents
     = concat (map (\<lambda>doc. map (\<lambda>chunk. \<lparr>page_content = chunk, metadata = metadata doc\<rparr>)
                               (splitter 5000 200 (page_content doc))) documents)
   \<and> (\<forall>c \<in> set (split_documents splitter documents).
        \<exists>doc \<in> set documents. metadata c = metadata doc
           \<and> page_content c \<in> set (splitter 5000 200 (page_content doc)))
   \<and> (page_content a = page_content b \<longrightarrow>
        map page_content (split_documents splitter [a])
          = map page_content (split_documents splitter [b]))
   \<and> ((\<forall>t. \<forall>chunk \<in> set (splitter 5000 200 t). length chunk \<le> 5000) \<longrightarrow>
        (\<forall>c \<in> set (split_documents splitter documents). length (page_content c) \<le> 5000)
        \<and> (\<forall>doc \<in> set documents. 5000 < length (page_content doc) \<longrightarrow>
              doc \<notin> set (split_documents splitter documents)))"
proof (intro conjI impI)
  show "split_documents splitter documents
     = concat (map (\<lambda>doc. map (\<lambda>chunk. \<lparr>page_content = chunk, metadata = metadata doc\<rparr>)
                               (splitter 5000 200 (page_content doc))) documents)"
    by (simp add: split_documents_def)
  show "\<forall>c \<in> set (split_documents splitter documents).
        \<exists>doc \<in> set documents. metadata c = metadata doc
           \<and> page_content c \<in> set (splitter 5000 200 (page_content doc))"
    using split_documents_chunk by blast
  show "map page_content (split_documents splitter [a])
          = map page_content (split_documents splitter [b])"
    if "page_content a = page_content b"
    using that by (simp add: split_documents_single comp_def)
next
  assume bound: "\<forall>t. \<forall>chunk \<in> set (splitter 5000 200 t). length chunk \<le> 5000"
  show small: "\<forall>c \<in> set (split_documents splitter documents). length (page_content c) \<le> 5000"
  proof
    fix c assume "c \<in> set (split_documents splitter documents)"
    from split_documents_chunk [OF this] bound show "length (page_content c) \<le> 5000"
      by blast
  qed
  show "\<forall>doc \<in> set documents. 5000 < length (page_content doc) \<longrightarrow>
              doc \<notin> set (split_documents splitter documents)"
    using small by fastforce
qed

theorem split_documents_every_kind_witness:
  "split_documents (\<lambda>chunk_size chunk_overlap t. map (\<lambda>c. [c]) t)
     [\<lparr>page_content = ''ab'', metadata = [(''source'', MStr ''a.pdf''), (''page'', MInt 1)]\<rparr>,
      \<lparr>page_content = ''ab'', metadata = [(''source'', MStr ''a.pdf''), (''page'', MInt 1),
         (''type'', MStr ''image''), (''image_index'', MInt 0)]\<rparr>]
   = [\<lparr>page_content = ''a'', metadata = [(''source'', MStr ''a.pdf''), (''page'', MInt 1)]\<rparr>,
      \<lparr>page_content = ''b'', metadata = [(''source'', MStr ''a.pdf''), (''page'', MInt 1)]\<rparr>,
      \<lparr>page_content = ''a'', metadata = [(''source'', MStr ''a.pdf''), (''page'', MInt 1),
         (''type'', MStr ''image''), (''image_index'', MInt 0)]\<rparr>,
      \<lparr>page_content = ''b'', metadata = [(''source'', MStr ''a.pdf''), (''page'', MInt 1),
         (''type'', MStr ''image''), (''image_index'', MInt 0)]\<rparr>]
   \<and> (\<forall>t. list_all (\<lambda>chunk. length chunk \<le> 5000) (map (\<lambda>c. [c]) t))
   \<and> list_all (\<lambda>c. length (page_content c) \<le> 5000)
        (split_documents (\<lambda>chunk_size chunk_overlap t. map (\<lambda>c. [c]) t)
           [\<lparr>page_content = ''ab'', metadata = [(''source'', MStr ''a.pdf''), (''page'', MInt 1)]\<rparr>,
            \<lparr>page_content = ''ab'', metadata = [(''source'', MStr ''a.pdf''), (''page'', MInt 1),
               (''type'', MStr ''image''), (''image_index'', MInt 0)]\<rparr>])"
proof -
  let ?sp = "\<lambda>chunk_size chunk_overlap t. map (\<lambda>c. [c]) (t :: string)"
  let ?a = "\<lparr>page_content = ''ab'', metadata = [(''source'', MStr ''a.pdf''), (''page'', MInt 1)]\<rparr>"
  let ?b = "\<lparr>page_content = ''ab'', metadata = [(''source'', MStr ''a.pdf''), (''page'', MInt 1),
               (''type'', MStr ''image''), (''image_index'', MInt 0)]\<rparr>"
  have bound: "\<forall>t. \<forall>chunk \<in> set (?sp 5000 200 t). length chunk \<le> 5000"
    by auto
  have same: "page_content ?a = page_content ?b"
    by simp
  from split_documents_every_kind [of ?sp "[?a, ?b]" ?a ?b] bound same
  show ?thesis
    by (simp add: list_all_iff)
qed

text \<open>
  The claim as stated fails for an image unit of 5001 characters: no splitter both keeps
  the chunks of a text unit with that payload within 5000 characters and leaves the image
  unit with the same payload unsplit.
\<close>

theorem split_documents_image_counterexample:
  "\<not> (\<exists>splitter.
        (\<forall>c \<in> set (split_documents splitter
                      [\<lparr>page_content = replicate 5001 CHR ''A'',
                        metadata = [(''source'', MStr ''a.pdf''), (''page'', MInt 1)]\<rparr>]).
            length (page_content c) \<le> 5000)
        \<and> split_documents splitter
             [\<lparr>page_content = replicate 5001 CHR ''A'',
               metadata = [(''source'', MStr ''a.pdf''), (''page'', MInt 1),
                           (''type'', MStr ''image''), (''image_index'', MInt 0)]\<rparr>]
           = [\<lparr>page_content = replicate 5001 CHR ''A'',
               metadata = [(''source'', MStr ''a.pdf''), (''page'', MInt 1),
                           (''type'', MStr ''image''), (''image_index'', MInt 0)]\<rparr>])"
proof
  let ?p = "replicate 5001 CHR ''A''"
  assume "\<exists>splitter.
        (\<forall>c \<in> set (split_documents splitter
                      [\<lparr>page_content = ?p,
                        metadata = [(''source'', MStr ''a.pdf''), (''page'', MInt 1)]\<rparr>]).
            length (page_content c) \<le> 5000)
        \<and> split_documents splitter
             [\<lparr>page_content = ?p,
               metadata = [(''source'', MStr ''a.pdf''), (''page'', MInt 1),
                           (''type'', MStr ''image''), (''image_index'', MInt 0)]\<rparr>]
           = [\<lparr>page_content = ?p,
               metadata = [(''source'', MStr ''a.pdf''), (''page'', MInt 1),
                           (''type'', MStr ''image''), (''image_index'', MInt 0)]\<rparr>]"
  then obtain splitter where
    bound: "\<forall>c \<in> set (split_documents splitter
                      [\<lparr>page_content = ?p,
                        metadata = [(''source'', MStr ''a.pdf''), (''page'', MInt 1)]\<rparr>]).
            length (page_content c) \<le> 5000"
    and whole: "split_documents splitter
             [\<lparr>page_content = ?p,
               metadata = [(''source'', MStr ''a.pdf''), (''page'', MInt 1),
                           (''type'', MStr ''image''), (''image_index'', MInt 0)]\<rparr>]
           = [\<lparr>page_content = ?p,
               metadata = [(''source'', MStr ''a.pdf''), (''page'', MInt 1),
                           (''type'', MStr ''image''), (''image_index'', MInt 0)]\<rparr>]"
    by blast
  from whole have "map page_content (map (\<lambda>chunk. \<lparr>page_content = chunk,
        metadata = [(''source'', MStr ''a.pdf''), (''page'', MInt 1),
                    (''type'', MStr ''image''), (''image_index'', MInt 0)]\<rparr>) (splitter 5000 200 ?p))
      = [?p]"
    by (simp add: split_documents_single)
  then have chunks: "splitter 5000 200 ?p = [?p]"
    by (simp add: comp_def)
  from bound have "\<forall>chunk \<in> set (splitter 5000 200 ?p). length chunk \<le> 5000"
    by (simp add: split_documents_single)
  with chunks show False
    by simp
qed

subsection \<open>Identifiers\<close>

lemma after_last_colon:
  assumes "xs @ c # s = ys @ c # t" and "c \<notin> set s" and "c \<notin> set t"
  shows "s = t"
proof -
  have "takeWhile (\<lambda>x. x \<noteq> c) (rev (xs @ c # s)) = rev s"
    using assms(2) by (auto simp: takeWhile_tail)
  moreover have "takeWhile (\<lambda>x. x \<noteq> c) (rev (ys @ c # t)) = rev t"
    using assms(3) by (auto simp: takeWhile_tail)
  ultimately have "rev s = rev t"
    using assms(1) by simp
  then show ?thesis by simp
qed

lemma chunk_id_split:
  "\<exists>pre. chunk_id h doc = pre @ CHR '':'' # str_int (h (page_content doc))"
proof -
  have "chunk_id h doc
      = (py_str (map_of (metadata doc) ''source'') @ '':'' @ py_str (map_of (metadata doc) ''page'')
          @ '':'' @ py_str (Some (doc_type doc))) @ CHR '':'' # str_int (h (page_content doc))"
    by (simp add: chunk_id_def Let_def)
  then show ?thesis by blast
qed

lemma chunk_id_eq_hash:
  assumes "chunk_id h1 a = chunk_id h2 b"
  shows "h1 (page_content a) = h2 (page_content b)"
proof -
  obtain p where p: "chunk_id h1 a = p @ CHR '':'' # str_int (h1 (page_content a))"
    using chunk_id_split by blast
  obtain q where q: "chunk_id h2 b = q @ CHR '':'' # str_int (h2 (page_content b))"
    using chunk_id_split by blast
  from assms p q have "p @ CHR '':'' # str_int (h1 (page_content a))
      = q @ CHR '':'' # str_int (h2 (page_content b))"
    by simp
  from after_last_colon [OF this str_int_no_colon str_int_no_colon]
  show ?thesis by (rule str_int_inj)
qed

lemma metadata_id_assign_id: "metadata_id (assign_id h doc) = chunk_id h doc"
  by (simp add: metadata_id_def assign_id_def update_conv')

text \<open>
  C1, what the code does. The identifier stored in a chunk is \<open>chunk_id\<close>: source, page
  and kind followed by the decimal value the process's \<open>hash\<close> gives the payload. For one
  chunk, two hash functions \<open>h1\<close> and \<open>h2\<close> (two interpreter processes) give the same
  identifier exactly when they give the payload the same hash value; within one process,
  two chunks with the same source, page and kind get the same identifier exactly when
  their payloads hash alike, whatever their ordinals (\<open>image_index\<close>, \<open>table_index\<close>).
  So the identifier is as stable, and as collision-free, as the built-in hash of a string:
  it changes from run to run.
\<close>

theorem chunk_id_follows_process_hash:
  "metadata_id (assign_id h doc) = chunk_id h doc
   \<and> (chunk_id h1 doc = chunk_id h2 doc \<longleftrightarrow> h1 (page_content doc) = h2 (page_content doc))
   \<and> (map_of (metadata a) ''source'' = map_of (metadata b) ''source'' \<longrightarrow>
      map_of (metadata a) ''page'' = map_of (metadata b) ''page'' \<longrightarrow>
      doc_type a = doc_type b \<longrightarrow>
        (chunk_id h a = chunk_id h b \<longleftrightarrow> h (page_content a) = h (page_content b)))"
proof (intro conjI impI)
  show "metadata_id (assign_id h doc) = chunk_id h doc"
    by (rule metadata_id_assign_id)
  show "chunk_id h1 doc = chunk_id h2 doc \<longleftrightarrow> h1 (page_content doc) = h2 (page_content doc)"
  proof
    assume "chunk_id h1 doc = chunk_id h2 doc"
    then show "h1 (page_content doc) = h2 (page_content doc)" by (rule chunk_id_eq_hash)
  next
    assume "h1 (page_content doc) = h2 (page_content doc)"
    then show "chunk_id h1 doc = chunk_id h2 doc" by (simp add: chunk_id_def)
  qed
next
  assume same: "map_of (metadata a) ''source'' = map_of (metadata b) ''source''"
    "map_of (metadata a) ''page'' = map_of (metadata b) ''page''" "doc_type a = doc_type b"
  show "chunk_id h a = chunk_id h b \<longleftrightarrow> h (page_content a) = h (page_content b)"
  proof
    assume "chunk_id h a = chunk_id h b"
    then show "h (page_content a) = h (page_content b)" by (rule chunk_id_eq_hash)
  next
    assume "h (page_content a) = h (page_content b)"
    with same show "chunk_id h a = chunk_id h b" by (simp add: chunk_id_def)
  qed
qed

text \<open>
  The hash values are those of CPython 3.11 for the payload under \<open>PYTHONHASHSEED=0\<close> and
  \<open>PYTHONHASHSEED=1\<close>: the same chunk gets two identifiers. Two image chunks that differ
  only in \<open>image_index\<close> get one identifier.
\<close>

theorem chunk_id_follows_process_hash_witness:
  "chunk_id (\<lambda>s. 3011972284260859441)
     \<lparr>page_content = ''Robots are built at AIR Lab.'',
      metadata = [(''source'', MStr ''src/data/source/a.pdf''), (''page'', MInt 1)]\<rparr>
   \<noteq> chunk_id (\<lambda>s. - 2879967698986603720)
     \<lparr>page_content = ''Robots are built at AIR Lab.'',
      metadata = [(''source'', MStr ''src/data/source/a.pdf''), (''page'', MInt 1)]\<rparr>
   \<and> chunk_id (\<lambda>s. 42)
     \<lparr>page_content = ''aGVsbG8='',
      metadata = [(''source'', MStr ''a.pdf''), (''page'', MInt 1), (''type'', MStr ''image''),
                  (''image_index'', MInt 0)]\<rparr>
   = chunk_id (\<lambda>s. 42)
     \<lparr>page_content = ''aGVsbG8='',
      metadata = [(''source'', MStr ''a.pdf''), (''page'', MInt 1), (''type'', MStr ''image''),
                  (''image_index'', MInt 1)]\<rparr>"
  using chunk_id_follows_process_hash
      [where doc = "\<lparr>page_content = ''Robots are built at AIR Lab.'',
          metadata = [(''source'', MStr ''src/data/source/a.pdf''), (''page'', MInt 1)]\<rparr>"
        and ?h1.0 = "\<lambda>s. 3011972284260859441" and ?h2.0 = "\<lambda>s. - 2879967698986603720"
        and a = "\<lparr>page_content = ''aGVsbG8='',
      metadata = [(''source'', MStr ''a.pdf''), (''page'', MInt 1), (''type'', MStr ''image''),
                  (''image_index'', MInt 0)]\<rparr>"
        and b = "\<lparr>page_content = ''aGVsbG8='',
      metadata = [(''source'', MStr ''a.pdf''), (''page'', MInt 1), (''type'', MStr ''image''),
                  (''image_index'', MInt 1)]\<rparr>"
        and h = "\<lambda>s. 42"]
  by (simp add: doc_type_def)

subsection \<open>Writing to the index twice\<close>

lemma fold_update_ids:
  "fst ` set (fold (\<lambda>(i, d). AList.update i d) ps db) = fst ` set ps \<union> fst ` set db"
proof (induction ps arbitrary: db)
  case Nil
  show ?case by simp
next
  case (Cons p ps)
  obtain i d where p: "p = (i, d)" by (cases p)
  from Cons.IH [of "AList.update i d db"] p show ?case
    using dom_update [of i d db] by auto
qed

lemma db_ids_add_documents:
  "length ids = length docs \<Longrightarrow> add_documents docs ids db = Inr db' \<Longrightarrow>
     set (db_ids db') = set ids \<union> set (db_ids db)"
proof -
  assume len: "length ids = length docs" and run: "add_documents docs ids db = Inr db'"
  from len have "fst ` set (zip ids docs) = set ids"
    by (metis map_fst_zip set_map)
  moreover from run have "db' = fold (\<lambda>(i, d). AList.update i d) (zip ids docs) db"
    by (simp add: add_documents_def split: if_splits)
  ultimately show ?thesis
    by (simp add: db_ids_def fold_update_ids)
qed

lemma new_documents_eq:
  "filter (\<lambda>doc. metadata_id doc \<notin> S) (map (assign_id h) documents)
     = map (assign_id h) (filter (\<lambda>doc. chunk_id h doc \<notin> S) documents)"
  by (simp add: filter_map comp_def metadata_id_assign_id)

lemma add_to_chroma_eq:
  "add_to_chroma h db documents =
     (let new = filter (\<lambda>doc. chunk_id h doc \<notin> set (db_ids db)) documents
      in if new \<noteq> []
         then (case add_documents (map (assign_id h) new) (map (chunk_id h) new) db of
                 Inl e \<Rightarrow> Inl e
               | Inr db' \<Rightarrow> Inr (db', length new))
         else Inr (db, 0))"
  by (simp add: add_to_chroma_def Let_def new_documents_eq comp_def metadata_id_assign_id
        split: sum.splits)

lemma add_to_chroma_duplicate:
  "\<not> distinct (map (chunk_id h) (filter (\<lambda>doc. chunk_id h doc \<notin> set (db_ids db)) documents)) \<Longrightarrow>
     add_to_chroma h db documents = Inl (OtherException ''DuplicateIDError'')"
  by (auto simp: add_to_chroma_eq Let_def add_documents_def)

lemma add_to_chroma_distinct:
  "distinct (map (chunk_id h) (filter (\<lambda>doc. chunk_id h doc \<notin> set (db_ids db)) documents)) \<Longrightarrow>
     \<exists>db'. add_to_chroma h db documents
       = Inr (db', length (filter (\<lambda>doc. chunk_id h doc \<notin> set (db_ids db)) documents))"
  by (simp add: add_to_chroma_eq Let_def add_documents_def)

lemma add_to_chroma_count:
  "add_to_chroma h db documents = Inr (db', n) \<Longrightarrow>
     n = length (filter (\<lambda>doc. chunk_id h doc \<notin> set (db_ids db)) documents)"
  by (auto simp: add_to_chroma_eq Let_def split: if_splits sum.splits)

lemma add_to_chroma_ids:
  assumes "add_to_chroma h db documents = Inr (db', n)"
  shows "set (db_ids db') = set (db_ids db) \<union> chunk_id h ` set documents"
proof -
  let ?new = "filter (\<lambda>doc. chunk_id h doc \<notin> set (db_ids db)) documents"
  have cover: "set (map (chunk_id h) ?new) \<union> set (db_ids db)
      = set (db_ids db) \<union> chunk_id h ` set documents"
    by auto
  show ?thesis
  proof (cases "?new = []")
    case True
    then have "\<forall>d \<in> set documents. chunk_id h d \<in> set (db_ids db)"
      by (simp add: filter_empty_conv)
    then have "set (db_ids db) \<union> chunk_id h ` set documents = set (db_ids db)"
      by auto
    moreover from True assms have "db' = db"
      by (simp add: add_to_chroma_eq Let_def)
    ultimately show ?thesis by simp
  next
    case False
    with assms have "add_documents (map (assign_id h) ?new) (map (chunk_id h) ?new) db = Inr db'"
      by (simp add: add_to_chroma_eq Let_def split: sum.splits)
    from db_ids_add_documents [OF _ this] cover show ?thesis
      by simp
  qed
qed

lemma add_to_chroma_nothing_new:
  "chunk_id h ` set documents \<subseteq> set (db_ids db) \<Longrightarrow> add_to_chroma h db documents = Inr (db, 0)"
proof -
  assume "chunk_id h ` set documents \<subseteq> set (db_ids db)"
  then have "filter (\<lambda>doc. chunk_id h doc \<notin> set (db_ids db)) documents = []"
    by (auto simp: filter_empty_conv)
  then show ?thesis
    by (simp add: add_to_chroma_eq Let_def)
qed

text \<open>
  C2, what the code does. \<open>add_to_chroma\<close> hands to the index exactly the chunks whose
  identifier it does not hold yet: when their identifiers are pairwise distinct it
  returns with their number as the number added, and the index then holds the old
  identifiers and those of all the chunks; when two of them share an identifier the call
  ends with \<open>DuplicateIDError\<close>. After a run that returned, adding the same chunks again
  with the same hash function adds nothing and leaves the index as it is. A second run
  is a second interpreter process with a hash function \<open>h2\<close> of its own: when \<open>h2\<close> gives
  the payloads hash values that \<open>h1\<close> gave none of them, the second run over the unchanged
  chunks, after a first run into an empty index, adds every chunk again.
\<close>

theorem add_to_chroma_second_run:
  "(distinct (map (chunk_id h1) (filter (\<lambda>doc. chunk_id h1 doc \<notin> set (db_ids db)) documents)) \<longrightarrow>
      (\<exists>db'. add_to_chroma h1 db documents
         = Inr (db', length (filter (\<lambda>doc. chunk_id h1 doc \<notin> set (db_ids db)) documents))))
   \<and> (\<not> distinct (map (chunk_id h1) (filter (\<lambda>doc. chunk_id h1 doc \<notin> set (db_ids db)) documents)) \<longrightarrow>
      add_to_chroma h1 db documents = Inl (OtherException ''DuplicateIDError''))
   \<and> (add_to_chroma h1 db documents = Inr (db1, n1) \<longrightarrow>
      n1 = length (filter (\<lambda>doc. chunk_id h1 doc \<notin> set (db_ids db)) documents)
      \<and> set (db_ids db1) = set (db_ids db) \<union> chunk_id h1 ` set documents
      \<and> add_to_chroma h1 db1 documents = Inr (db1, 0))
   \<and> (add_to_chroma h1 [] documents = Inr (db1, n1) \<longrightarrow>
      (\<forall>a \<in> set documents. \<forall>b \<in> set documents. h2 (page_content a) \<noteq> h1 (page_content b)) \<longrightarrow>
      distinct (map (chunk_id h2) documents) \<longrightarrow>
      (\<exists>db2. add_to_chroma h2 db1 documents = Inr (db2, length documents)))"
proof (intro conjI impI)
  assume "distinct (map (chunk_id h1) (filter (\<lambda>doc. chunk_id h1 doc \<notin> set (db_ids db)) documents))"
  then show "\<exists>db'. add_to_chroma h1 db documents
         = Inr (db', length (filter (\<lambda>doc. chunk_id h1 doc \<notin> set (db_ids db)) documents))"
    by (rule add_to_chroma_distinct)
next
  assume "\<not> distinct (map (chunk_id h1) (filter (\<lambda>doc. chunk_id h1 doc \<notin> set (db_ids db)) documents))"
  then show "add_to_chroma h1 db documents = Inl (OtherException ''DuplicateIDError'')"
    by (rule add_to_chroma_duplicate)
next
  assume run: "add_to_chroma h1 db documents = Inr (db1, n1)"
  show "n1 = length (filter (\<lambda>doc. chunk_id h1 doc \<notin> set (db_ids db)) documents)"
    using run by (rule add_to_chroma_count)
  show "set (db_ids db1) = set (db_ids db) \<union> chunk_id h1 ` set documents"
    using run by (rule add_to_chroma_ids)
  show "add_to_chroma h1 db1 documents = Inr (db1, 0)"
    by (rule add_to_chroma_nothing_new) (simp add: add_to_chroma_ids [OF run])
next
  assume run: "add_to_chroma h1 [] documents = Inr (db1, n1)"
    and differ: "\<forall>a \<in> set documents. \<forall>b \<in> set documents. h2 (page_content a) \<noteq> h1 (page_content b)"
    and dist: "distinct (map (chunk_id h2) documents)"
  have ids1: "set (db_ids db1) = chunk_id h1 ` set documents"
    using add_to_chroma_ids [OF run] by (simp add: db_ids_def)
  have "chunk_id h2 a \<notin> set (db_ids db1)" if a: "a \<in> set documents" for a
  proof
    assume "chunk_id h2 a \<in> set (db_ids db1)"
    with ids1 obtain b where b: "b \<in> set documents" "chunk_id h2 a = chunk_id h1 b"
      by auto
    from chunk_id_eq_hash [OF b(2)] differ a b(1) show False
      by blast
  qed
  then have all_new: "filter (\<lambda>doc. chunk_id h2 doc \<notin> set (db_ids db1)) documents = documents"
    by (simp add: filter_id_conv)
  with dist add_to_chroma_distinct [of h2 db1 documents]
  show "\<exists>db2. add_to_chroma h2 db1 documents = Inr (db2, length documents)"
    by simp
qed

text \<open>
  The hash values are those of CPython 3.11 for the payload under \<open>PYTHONHASHSEED=0\<close> and
  \<open>PYTHONHASHSEED=1\<close>. The first run adds the chunk; a repeat with the same hash function
  adds nothing; the second process adds it again. A batch that holds the chunk twice is
  refused.
\<close>

theorem add_to_chroma_second_run_witness:
  "\<exists>db1 db2.
     add_to_chroma (\<lambda>s. 3011972284260859441) []
       [\<lparr>page_content = ''Robots are built at AIR Lab.'',
         metadata = [(''source'', MStr ''src/data/source/a.pdf''), (''page'', MInt 1)]\<rparr>]
       = Inr (db1, 1)
     \<and> add_to_chroma (\<lambda>s. 3011972284260859441) db1
       [\<lparr>page_content = ''Robots are built at AIR Lab.'',
         metadata = [(''source'', MStr ''src/data/source/a.pdf''), (''page'', MInt 1)]\<rparr>]
       = Inr (db1, 0)
     \<and> add_to_chroma (\<lambda>s. - 2879967698986603720) db1
       [\<lparr>page_content = ''Robots are built at AIR Lab.'',
         metadata = [(''source'', MStr ''src/data/source/a.pdf''), (''page'', MInt 1)]\<rparr>]
       = Inr (db2, 1)
     \<and> add_to_chroma (\<lambda>s. 3011972284260859441) []
       [\<lparr>page_content = ''Robots are built at AIR Lab.'',
         metadata = [(''source'', MStr ''src/data/source/a.pdf''), (''page'', MInt 1)]\<rparr>,
        \<lparr>page_content = ''Robots are built at AIR Lab.'',
         metadata = [(''source'', MStr ''src/data/source/a.pdf''), (''page'', MInt 1)]\<rparr>]
       = Inl (OtherException ''DuplicateIDError'')"
proof -
  let ?h1 = "\<lambda>s :: string. 3011972284260859441 :: int"
  let ?h2 = "\<lambda>s :: string. - 2879967698986603720 :: int"
  let ?d = "\<lparr>page_content = ''Robots are built at AIR Lab.'',
         metadata = [(''source'', MStr ''src/data/source/a.pdf''), (''page'', MInt 1)]\<rparr>"
  from add_to_chroma_second_run [of ?h1 "[]" "[?d]" "[]" 0 ?h1, THEN conjunct1]
  have "\<exists>db1. add_to_chroma ?h1 [] [?d] = Inr (db1, 1)"
    by (simp add: db_ids_def)
  then obtain db1 where first: "add_to_chroma ?h1 [] [?d] = Inr (db1, 1)"
    by blast
  note inst = add_to_chroma_second_run [of ?h1 "[]" "[?d]" db1 1 ?h2]
  from inst [THEN conjunct2, THEN conjunct2, THEN conjunct1, rule_format, OF first]
  have again: "add_to_chroma ?h1 db1 [?d] = Inr (db1, 0)"
    by blast
  have differ: "\<forall>a \<in> set [?d]. \<forall>b \<in> set [?d]. ?h2 (page_content a) \<noteq> ?h1 (page_content b)"
    by simp
  have dist: "distinct (map (chunk_id ?h2) [?d])"
    by simp
  from inst [THEN conjunct2, THEN conjunct2, THEN conjunct2, THEN mp, OF first, THEN mp,
      OF differ, THEN mp, OF dist]
  have "\<exists>db2. add_to_chroma ?h2 db1 [?d] = Inr (db2, length [?d])" .
  then obtain db2 where second: "add_to_chroma ?h2 db1 [?d] = Inr (db2, 1)"
    by auto
  have dup: "add_to_chroma ?h1 [] [?d, ?d] = Inl (OtherException ''DuplicateIDError'')"
    by (rule add_to_chroma_second_run [THEN conjunct2, THEN conjunct1, rule_format])
       (simp add: db_ids_def)
  show ?thesis
    by (intro exI [of _ db1] exI [of _ db2] conjI first again second dup)
qed

subsection \<open>The kinds that ingestion writes\<close>

text \<open>
  Every chunk that \<open>main\<close> hands to the index (loaded, split, identifier assigned) has the
  kind text, table or image.
\<close>

lemma extract_page_kinds:
  "d \<in> set (extract_page b64 fp pn page []) \<Longrightarrow>
     doc_type d \<in> {MStr ''text'', MStr ''table'', MStr ''image''}"
  by (auto simp: extract_page_eq doc_type_simps split: if_splits)

lemma extract_pages_kinds:
  "d \<in> set (extract_pages b64 fp pn pages []) \<Longrightarrow>
     doc_type d \<in> {MStr ''text'', MStr ''table'', MStr ''image''}"
proof (induction pages arbitrary: pn)
  case Nil
  then show ?case by simp
next
  case (Cons page pages)
  from Cons.prems have "d \<in> set (extract_page b64 fp pn page []) \<or>
      d \<in> set (extract_pages b64 fp (Suc pn) pages [])"
    by (simp add: extract_pages_Cons del: extract_pages.simps)
  with Cons.IH extract_page_kinds show ?case by blast
qed

lemma load_loop_kinds:
  "load_loop b64 files acc = Inr docs \<Longrightarrow>
   \<forall>d \<in> set acc. doc_type d \<in> {MStr ''text'', MStr ''table'', MStr ''image''} \<Longrightarrow>
   \<forall>d \<in> set docs. doc_type d \<in> {MStr ''text'', MStr ''table'', MStr ''image''}"
proof (induction files arbitrary: acc)
  case Nil
  then show ?case by simp
next
  case (Cons f files)
  obtain n opened where f: "f = (n, opened)" by (cases f)
  show ?case
  proof (cases "endswith (lower n) ''.pdf''")
    case False
    with Cons.prems f have "load_loop b64 files acc = Inr docs" by simp
    from Cons.IH [OF this Cons.prems(2)] show ?thesis .
  next
    case True
    show ?thesis
    proof (cases opened)
      case (Inl e)
      with True f Cons.prems(1) show ?thesis
        by (simp add: extract_pdf_content_def)
    next
      case (Inr pdf)
      let ?units = "extract_pages b64 (path_join DATA_SOURCE_PATH n) 0 pdf []"
      from Inr True f Cons.prems(1) have run: "load_loop b64 files (acc @ ?units) = Inr docs"
        by (simp add: extract_pdf_content_def)
      have "\<forall>d \<in> set (acc @ ?units). doc_type d \<in> {MStr ''text'', MStr ''table'', MStr ''image''}"
      proof
        fix d assume "d \<in> set (acc @ ?units)"
        then have "d \<in> set acc \<or> d \<in> set ?units" by simp
        then show "doc_type d \<in> {MStr ''text'', MStr ''table'', MStr ''image''}"
          using Cons.prems(2) extract_pages_kinds [of d] by blast
      qed
      from Cons.IH [OF run this] show ?thesis .
    qed
  qed
qed

lemma doc_type_assign_id: "doc_type (assign_id h doc) = doc_type doc"
  by (simp add: doc_type_def assign_id_def update_conv')

lemma ingested_kinds:
  assumes "load_documents b64 listing = Inr documents"
    and "c \<in> set (map (assign_id h) (split_documents splitter documents))"
  shows "doc_type c \<in> {MStr ''text'', MStr ''table'', MStr ''image''}"
proof -
  from assms(2) obtain chunk where chunk: "chunk \<in> set (split_documents splitter documents)"
    "c = assign_id h chunk"
    by auto
  from split_documents_chunk [OF chunk(1)] obtain doc where doc: "doc \<in> set documents"
    "metadata chunk = metadata doc"
    by blast
  from load_loop_kinds [OF assms(1) [unfolded load_documents_def]] doc(1)
  have "doc_type doc \<in> {MStr ''text'', MStr ''table'', MStr ''image''}"
    by simp
  with doc(2) chunk(2) show ?thesis
    by (simp add: doc_type_assign_id) (simp add: doc_type_def)
qed

subsection \<open>Context assembly and sources in \<open>query_rag\<close>\<close>

lemma group_context_acc:
  "group_context results t tb im =
     (t @ map page_content (filter (\<lambda>d. doc_type d = MStr ''text'') (map fst results)),
      tb @ map page_content (filter (\<lambda>d. doc_type d = MStr ''table'') (map fst results)),
      im @ map (\<lambda>d. ''Image (Base64): '' @ page_content d)
             (filter (\<lambda>d. doc_type d = MStr ''image'') (map fst results)))"
  by (induction results t tb im rule: group_context.induct) (simp_all add: Let_def)

lemma kinds_partition:
  "list_all (\<lambda>d. doc_type d \<in> {MStr ''text'', MStr ''table'', MStr ''image''}) ds \<Longrightarrow>
   mset (filter (\<lambda>d. doc_type d = MStr ''text'') ds)
     + mset (filter (\<lambda>d. doc_type d = MStr ''table'') ds)
     + mset (filter (\<lambda>d. doc_type d = MStr ''image'') ds) = mset ds"
  by (induction ds) auto

text \<open>
  C5. For retrieved units whose kind is text, table or image, the context is the three
  labelled sections in the order text, tables, images; each section joins, in retrieval
  order, the payloads of the units of its kind (an image payload behind the marker
  \<open>Image (Base64): \<close>), so an empty group leaves its label with nothing under it; and the
  three groups together hold every retrieved unit exactly once.
\<close>

theorem context_text_grouped:
  assumes "list_all (\<lambda>d. doc_type d \<in> {MStr ''text'', MStr ''table'', MStr ''image''}) (map fst results)"
  shows "context_text results =
           ''### Text:\<newline>''
           @ join ''\<newline>\<newline>'' (map page_content (filter (\<lambda>d. doc_type d = MStr ''text'') (map fst results)))
           @ ''\<newline>\<newline>### Tables:\<newline>''
           @ join ''\<newline>\<newline>'' (map page_content (filter (\<lambda>d. doc_type d = MStr ''table'') (map fst results)))
           @ ''\<newline>\<newline>### Images:\<newline>''
           @ join ''\<newline>\<newline>'' (map (\<lambda>d. ''Image (Base64): '' @ page_content d)
                                   (filter (\<lambda>d. doc_type d = MStr ''image'') (map fst results)))
         \<and> mset (filter (\<lambda>d. doc_type d = MStr ''text'') (map fst results))
           + mset (filter (\<lambda>d. doc_type d = MStr ''table'') (map fst results))
           + mset (filter (\<lambda>d. doc_type d = MStr ''image'') (map fst results))
           = mset (map fst results)"
  using kinds_partition [OF assms] by (simp add: context_text_def group_context_acc)

theorem context_text_grouped_witness:
  "context_text
     [(\<lparr>page_content = ''Robots are built at AIR Lab.'',
        metadata = [(''source'', MStr ''a.pdf''), (''page'', MInt 1)]\<rparr>, 0.9),
      (\<lparr>page_content = ''aGVsbG8='',
        metadata = [(''source'', MStr ''a.pdf''), (''page'', MInt 1), (''type'', MStr ''image''),
                    (''image_index'', MInt 0)]\<rparr>, 0.8),
      (\<lparr>page_content = ''Second page.'',
        metadata = [(''source'', MStr ''a.pdf''), (''page'', MInt 2)]\<rparr>, 0.7)]
   = ''### Text:\<newline>Robots are built at AIR Lab.\<newline>\<newline>Second page.\<newline>\<newline>### Tables:\<newline>\<newline>\<newline>### Images:\<newline>Image (Base64): aGVsbG8=''"
  using context_text_grouped
    [of "[(\<lparr>page_content = ''Robots are built at AIR Lab.'',
        metadata = [(''source'', MStr ''a.pdf''), (''page'', MInt 1)]\<rparr>, 0.9),
      (\<lparr>page_content = ''aGVsbG8='',
        metadata = [(''source'', MStr ''a.pdf''), (''page'', MInt 1), (''type'', MStr ''image''),
                    (''image_index'', MInt 0)]\<rparr>, 0.8),
      (\<lparr>page_content = ''Second page.'',
        metadata = [(''source'', MStr ''a.pdf''), (''page'', MInt 2)]\<rparr>, 0.7)]"]
  by (simp add: doc_type_def)

text \<open>
  C10. Whenever retrieval returns, the sources of the response are, result by result and
  in retrieval order, the \<open>id\<close> entry of the result's metadata, or the string \<open>unknown\<close>
  where it has none; this holds for every behaviour \<open>g\<close> of the generation call, failing
  or not.
\<close>

theorem query_rag_sources:
  assumes "search be question 5 = Inr results"
  shows "\<exists>r. query_rag (be\<lparr>generate := g\<rparr>) question = Inr r
           \<and> response_sources r
               = map (\<lambda>(doc, score). case map_of (metadata doc) ''id'' of
                                        None \<Rightarrow> MStr ''unknown'' | Some i \<Rightarrow> i) results
           \<and> length (response_sources r) = length results"
  using assms by (simp add: query_rag_def Let_def source_of_def)

theorem query_rag_sources_witness:
  "\<exists>r. query_rag
          \<lparr>search = (\<lambda>q k. Inr [(\<lparr>page_content = ''Robots are built at AIR Lab.'',
                                     metadata = [(''source'', MStr ''a.pdf''), (''page'', MInt 1),
                                                 (''id'', MStr ''a.pdf:1:text:42'')]\<rparr>, 0.9),
                                   (\<lparr>page_content = ''Second page.'',
                                     metadata = [(''source'', MStr ''a.pdf''), (''page'', MInt 2)]\<rparr>, 0.7)]),
           generate = (\<lambda>m p. Inl (OtherException ''AccessDeniedException'')),
           ddb_put_error = (\<lambda>k. None), ddb_get_error = (\<lambda>k. None),
           lambda_invoke_error = None\<rparr>
          ''Where are robots built?'' = Inr r
        \<and> response_sources r = [MStr ''a.pdf:1:text:42'', MStr ''unknown'']"
  using query_rag_sources
    [of "\<lparr>search = (\<lambda>q k. Inr [(\<lparr>page_content = ''Robots are built at AIR Lab.'',
                                     metadata = [(''source'', MStr ''a.pdf''), (''page'', MInt 1),
                                                 (''id'', MStr ''a.pdf:1:text:42'')]\<rparr>, 0.9),
                                   (\<lparr>page_content = ''Second page.'',
                                     metadata = [(''source'', MStr ''a.pdf''), (''page'', MInt 2)]\<rparr>, 0.7)]),
           generate = (\<lambda>m p. Inr []),
           ddb_put_error = (\<lambda>k. None), ddb_get_error = (\<lambda>k. None),
           lambda_invoke_error = None\<rparr>"
        "''Where are robots built?''" _ "\<lambda>m p. Inl (OtherException ''AccessDeniedException'')"]
  by auto

subsection \<open>Generation failure and dispatch\<close>

lemma query_rag_generation_failure:
  assumes "search be question 5 = Inr results"
    and "generate be BEDROCK_MODEL_ID (format_prompt (context_text results) question) = Inl e"
  shows "query_rag be question
           = Inr \<lparr>response_query_text = question,
                  response_text = ''Error generating response: '' @ exn_str e,
                  response_sources = map (\<lambda>(doc, score). source_of doc) results\<rparr>"
  using assms by (simp add: query_rag_def Let_def)

text \<open>
  C3. When retrieval has returned and the generation call raises \<open>e\<close>, \<open>query_rag\<close>
  returns (it does not raise) a response whose text is \<open>Error generating response: \<close>
  followed by \<open>str(e)\<close>. With a job store that accepts the write, the synchronous path
  of \<open>submit_query_endpoint\<close> (no worker configured) and the worker path (\<open>handler\<close>,
  \<open>invoke_rag\<close>) both return normally and leave the job stored with
  \<open>is_complete = True\<close> and that text as \<open>answer_text\<close>.
\<close>

theorem generation_failure_contained:
  assumes "search be question 5 = Inr results"
    and "generate be BEDROCK_MODEL_ID (format_prompt (context_text results) question) = Inl e"
  shows "query_rag be question
           = Inr \<lparr>response_query_text = question,
                  response_text = ''Error generating response: '' @ exn_str e,
                  response_sources = map (\<lambda>(doc, score). source_of doc) results\<rparr>
         \<and> (WORKER_LAMBDA_NAME = None \<or> WORKER_LAMBDA_NAME = Some [] \<longrightarrow>
            ddb_put_error be new_id = None \<longrightarrow>
              (let finished = \<lparr>query_id = new_id, create_time = now, query_text = question,
                               answer_text = Some (''Error generating response: '' @ exn_str e),
                               sources = map (\<lambda>(doc, score). source_of doc) results,
                               is_complete = True\<rparr>
               in submit_query_endpoint be WORKER_LAMBDA_NAME new_id now question w
                    = (Inr finished, w\<lparr>jobs := (jobs w)(new_id \<mapsto> finished)\<rparr>)))
         \<and> (query_text item = question \<longrightarrow> ddb_put_error be (query_id item) = None \<longrightarrow>
              (let finished = item\<lparr>answer_text := Some (''Error generating response: '' @ exn_str e),
                                   sources := map (\<lambda>(doc, score). source_of doc) results,
                                   is_complete := True\<rparr>
               in invoke_rag be item w
                    = (Inr finished, w\<lparr>jobs := (jobs w)(query_id item \<mapsto> finished)\<rparr>)
                  \<and> handler be item w
                    = (Inr (), w\<lparr>jobs := (jobs w)(query_id item \<mapsto> finished)\<rparr>)))"
proof -
  note rag = query_rag_generation_failure [OF assms]
  have sync: "submit_query_endpoint be WORKER_LAMBDA_NAME new_id now question w
                = (Inr finished, w\<lparr>jobs := (jobs w)(new_id \<mapsto> finished)\<rparr>)"
    if "WORKER_LAMBDA_NAME = None \<or> WORKER_LAMBDA_NAME = Some []"
      and "ddb_put_error be new_id = None"
      and "finished = \<lparr>query_id = new_id, create_time = now, query_text = question,
                        answer_text = Some (''Error generating response: '' @ exn_str e),
                        sources = map (\<lambda>(doc, score). source_of doc) results,
                        is_complete = True\<rparr>" for finished
  proof -
    from that(1) have "\<not> truthy WORKER_LAMBDA_NAME"
      by (auto simp: truthy_def)
    with that(2,3) rag show ?thesis
      by (simp add: submit_query_endpoint_def new_QueryModel_def put_item_def Let_def)
  qed
  have worker: "invoke_rag be item w
                  = (Inr finished, w\<lparr>jobs := (jobs w)(query_id item \<mapsto> finished)\<rparr>)
                \<and> handler be item w
                  = (Inr (), w\<lparr>jobs := (jobs w)(query_id item \<mapsto> finished)\<rparr>)"
    if "query_text item = question" and "ddb_put_error be (query_id item) = None"
      and "finished = item\<lparr>answer_text := Some (''Error generating response: '' @ exn_str e),
                            sources := map (\<lambda>(doc, score). source_of doc) results,
                            is_complete := True\<rparr>" for finished
    using that rag by (simp add: handler_def invoke_rag_def put_item_def Let_def)
  from rag sync worker show ?thesis
    by (simp add: Let_def)
qed

theorem generation_failure_contained_witness:
  "query_rag
     \<lparr>search = (\<lambda>q k. Inr [(\<lparr>page_content = ''Robots are built at AIR Lab.'',
                                metadata = [(''source'', MStr ''a.pdf''), (''page'', MInt 1),
                                            (''id'', MStr ''a.pdf:1:text:42'')]\<rparr>, 0.9)]),
      generate = (\<lambda>m p. Inl (OtherException ''AccessDeniedException'')),
      ddb_put_error = (\<lambda>k. None), ddb_get_error = (\<lambda>k. None), lambda_invoke_error = None\<rparr>
     ''Where are robots built?''
   = Inr \<lparr>response_query_text = ''Where are robots built?'',
          response_text = ''Error generating response: AccessDeniedException'',
          response_sources = [MStr ''a.pdf:1:text:42'']\<rparr>
   \<and> fst (submit_query_endpoint
       \<lparr>search = (\<lambda>q k. Inr [(\<lparr>page_content = ''Robots are built at AIR Lab.'',
                                metadata = [(''source'', MStr ''a.pdf''), (''page'', MInt 1),
                                            (''id'', MStr ''a.pdf:1:text:42'')]\<rparr>, 0.9)]),
        generate = (\<lambda>m p. Inl (OtherException ''AccessDeniedException'')),
        ddb_put_error = (\<lambda>k. None), ddb_get_error = (\<lambda>k. None), lambda_invoke_error = None\<rparr>
       None ''q1'' 1700000000 ''Where are robots built?'' \<lparr>jobs = Map.empty, invocations = []\<rparr>)
     = Inr \<lparr>query_id = ''q1'', create_time = 1700000000, query_text = ''Where are robots built?'',
            answer_text = Some ''Error generating response: AccessDeniedException'',
            sources = [MStr ''a.pdf:1:text:42''], is_complete = True\<rparr>
   \<and> jobs (snd (handler
       \<lparr>search = (\<lambda>q k. Inr [(\<lparr>page_content = ''Robots are built at AIR Lab.'',
                                metadata = [(''source'', MStr ''a.pdf''), (''page'', MInt 1),
                                            (''id'', MStr ''a.pdf:1:text:42'')]\<rparr>, 0.9)]),
        generate = (\<lambda>m p. Inl (OtherException ''AccessDeniedException'')),
        ddb_put_error = (\<lambda>k. None), ddb_get_error = (\<lambda>k. None), lambda_invoke_error = None\<rparr>
       \<lparr>query_id = ''q1'', create_time = 1700000000, query_text = ''Where are robots built?'',
        answer_text = None, sources = [], is_complete = False\<rparr>
       \<lparr>jobs = Map.empty, invocations = []\<rparr>)) ''q1''
     = Some \<lparr>query_id = ''q1'', create_time = 1700000000, query_text = ''Where are robots built?'',
            answer_text = Some ''Error generating response: AccessDeniedException'',
            sources = [MStr ''a.pdf:1:text:42''], is_complete = True\<rparr>"
  using generation_failure_contained
    [where be = "\<lparr>search = (\<lambda>q k. Inr [(\<lparr>page_content = ''Robots are built at AIR Lab.'',
                                metadata = [(''source'', MStr ''a.pdf''), (''page'', MInt 1),
                                            (''id'', MStr ''a.pdf:1:text:42'')]\<rparr>, 0.9)]),
        generate = (\<lambda>m p. Inl (OtherException ''AccessDeniedException'')),
        ddb_put_error = (\<lambda>k. None), ddb_get_error = (\<lambda>k. None), lambda_invoke_error = None\<rparr>"
      and question = "''Where are robots built?''"
      and results = "[(\<lparr>page_content = ''Robots are built at AIR Lab.'',
                                metadata = [(''source'', MStr ''a.pdf''), (''page'', MInt 1),
                                            (''id'', MStr ''a.pdf:1:text:42'')]\<rparr>, 0.9)]"
      and e = "OtherException ''AccessDeniedException''"
      and WORKER_LAMBDA_NAME = None and new_id = "''q1''" and now = 1700000000
      and w = "\<lparr>jobs = Map.empty, invocations = []\<rparr>"
      and item = "\<lparr>query_id = ''q1'', create_time = 1700000000, query_text = ''Where are robots built?'',
        answer_text = None, sources = [], is_complete = False\<rparr>"]
  by (simp add: source_of_def Let_def)

text \<open>
  C4. With a worker configured (a non-empty \<open>WORKER_LAMBDA_NAME\<close>), a job store that
  accepts the write and a Lambda client that accepts the call, \<open>submit_query_endpoint\<close>
  stores the new job pending (\<open>is_complete = False\<close>, no \<open>answer_text\<close>), sends one
  invocation of type \<open>Event\<close> to the worker with that whole record as payload, and returns
  the pending job, whatever retrieval and generation would do. With no worker configured
  (the variable unset or empty), retrieval returning and the store accepting the write, it
  runs the pipeline itself: \<open>query_rag\<close> returns the response whose text is what the
  generation call returned for the prompt built from the retrieved results (or the error
  text, had it raised) and whose sources are those of the results, and the job is stored
  and returned complete (\<open>is_complete = True\<close>) with exactly that text as \<open>answer_text\<close>
  and those sources.
\<close>

theorem submit_query_dispatch:
  "(name \<noteq> [] \<longrightarrow> ddb_put_error be new_id = None \<longrightarrow> lambda_invoke_error be = None \<longrightarrow>
      (let pending = \<lparr>query_id = new_id, create_time = now, query_text = question,
                      answer_text = None, sources = [], is_complete = False\<rparr>
       in submit_query_endpoint be (Some name) new_id now question w
            = (Inr pending,
               w\<lparr>jobs := (jobs w)(new_id \<mapsto> pending),
                 invocations := invocations w
                   @ [\<lparr>FunctionName = name, InvocationType = ''Event'', Payload = pending\<rparr>]\<rparr>)))
   \<and> (WORKER_LAMBDA_NAME = None \<or> WORKER_LAMBDA_NAME = Some [] \<longrightarrow>
      search be question 5 = Inr results \<longrightarrow> ddb_put_error be new_id = None \<longrightarrow>
      (let answer = (case generate be BEDROCK_MODEL_ID
                            (format_prompt (context_text results) question) of
                       Inr content \<Rightarrow> content
                     | Inl e \<Rightarrow> ''Error generating response: '' @ exn_str e);
           srcs = map (\<lambda>(doc, score). source_of doc) results;
           finished = \<lparr>query_id = new_id, create_time = now, query_text = question,
                        answer_text = Some answer, sources = srcs, is_complete = True\<rparr>
       in query_rag be question
            = Inr \<lparr>response_query_text = question, response_text = answer,
                   response_sources = srcs\<rparr>
          \<and> submit_query_endpoint be WORKER_LAMBDA_NAME new_id now question w
            = (Inr finished, w\<lparr>jobs := (jobs w)(new_id \<mapsto> finished)\<rparr>)))"
proof (intro conjI impI)
  assume "name \<noteq> []" "ddb_put_error be new_id = None" "lambda_invoke_error be = None"
  then show "let pending = \<lparr>query_id = new_id, create_time = now, query_text = question,
                      answer_text = None, sources = [], is_complete = False\<rparr>
       in submit_query_endpoint be (Some name) new_id now question w
            = (Inr pending,
               w\<lparr>jobs := (jobs w)(new_id \<mapsto> pending),
                 invocations := invocations w
                   @ [\<lparr>FunctionName = name, InvocationType = ''Event'', Payload = pending\<rparr>]\<rparr>)"
    by (simp add: submit_query_endpoint_def new_QueryModel_def put_item_def invoke_worker_def
          truthy_def Let_def)
next
  assume "WORKER_LAMBDA_NAME = None \<or> WORKER_LAMBDA_NAME = Some []"
  then have "\<not> truthy WORKER_LAMBDA_NAME"
    by (auto simp: truthy_def)
  moreover assume "search be question 5 = Inr results" "ddb_put_error be new_id = None"
  ultimately show "let answer = (case generate be BEDROCK_MODEL_ID
                            (format_prompt (context_text results) question) of
                       Inr content \<Rightarrow> content
                     | Inl e \<Rightarrow> ''Error generating response: '' @ exn_str e);
           srcs = map (\<lambda>(doc, score). source_of doc) results;
           finished = \<lparr>query_id = new_id, create_time = now, query_text = question,
                        answer_text = Some answer, sources = srcs, is_complete = True\<rparr>
       in query_rag be question
            = Inr \<lparr>response_query_text = question, response_text = answer,
                   response_sources = srcs\<rparr>
          \<and> submit_query_endpoint be WORKER_LAMBDA_NAME new_id now question w
            = (Inr finished, w\<lparr>jobs := (jobs w)(new_id \<mapsto> finished)\<rparr>)"
    by (simp add: submit_query_endpoint_def new_QueryModel_def put_item_def query_rag_def Let_def)
qed

theorem submit_query_dispatch_witness:
  "submit_query_endpoint
     \<lparr>search = (\<lambda>q k. Inl (OtherException ''index unavailable'')),
      generate = (\<lambda>m p. Inl (OtherException ''AccessDeniedException'')),
      ddb_put_error = (\<lambda>k. None), ddb_get_error = (\<lambda>k. None), lambda_invoke_error = None\<rparr>
     (Some ''rag-worker'') ''q1'' 1700000000 ''Where are robots built?''
     \<lparr>jobs = Map.empty, invocations = []\<rparr>
   = (Inr \<lparr>query_id = ''q1'', create_time = 1700000000, query_text = ''Where are robots built?'',
           answer_text = None, sources = [], is_complete = False\<rparr>,
      \<lparr>jobs = [''q1'' \<mapsto> \<lparr>query_id = ''q1'', create_time = 1700000000,
                           query_text = ''Where are robots built?'',
                           answer_text = None, sources = [], is_complete = False\<rparr>],
       invocations = [\<lparr>FunctionName = ''rag-worker'', InvocationType = ''Event'',
                       Payload = \<lparr>query_id = ''q1'', create_time = 1700000000,
                                  query_text = ''Where are robots built?'',
                                  answer_text = None, sources = [], is_complete = False\<rparr>\<rparr>]\<rparr>)
   \<and> (submit_query_endpoint
          \<lparr>search = (\<lambda>q k. Inr [(\<lparr>page_content = ''Robots are built at AIR Lab.'',
                                     metadata = [(''source'', MStr ''a.pdf''), (''page'', MInt 1),
                                                 (''id'', MStr ''a.pdf:1:text:42'')]\<rparr>, 0.9)]),
           generate = (\<lambda>m p. Inr ''At AIR Lab.''),
           ddb_put_error = (\<lambda>k. None), ddb_get_error = (\<lambda>k. None), lambda_invoke_error = None\<rparr>
          None ''q2'' 1700000001 ''Where are robots built?''
          \<lparr>jobs = Map.empty, invocations = []\<rparr>
        = (Inr \<lparr>query_id = ''q2'', create_time = 1700000001, query_text = ''Where are robots built?'',
                answer_text = Some ''At AIR Lab.'', sources = [MStr ''a.pdf:1:text:42''], is_complete = True\<rparr>,
           \<lparr>jobs = [''q2'' \<mapsto> \<lparr>query_id = ''q2'', create_time = 1700000001,
                                query_text = ''Where are robots built?'',
                                answer_text = Some ''At AIR Lab.'', sources = [MStr ''a.pdf:1:text:42''],
                                is_complete = True\<rparr>],
            invocations = []\<rparr>))"
proof -
  have a: "submit_query_endpoint
     \<lparr>search = (\<lambda>q k. Inl (OtherException ''index unavailable'')),
      generate = (\<lambda>m p. Inl (OtherException ''AccessDeniedException'')),
      ddb_put_error = (\<lambda>k. None), ddb_get_error = (\<lambda>k. None), lambda_invoke_error = None\<rparr>
     (Some ''rag-worker'') ''q1'' 1700000000 ''Where are robots built?''
     \<lparr>jobs = Map.empty, invocations = []\<rparr>
   = (Inr \<lparr>query_id = ''q1'', create_time = 1700000000, query_text = ''Where are robots built?'',
           answer_text = None, sources = [], is_complete = False\<rparr>,
      \<lparr>jobs = [''q1'' \<mapsto> \<lparr>query_id = ''q1'', create_time = 1700000000,
                           query_text = ''Where are robots built?'',
                           answer_text = None, sources = [], is_complete = False\<rparr>],
       invocations = [\<lparr>FunctionName = ''rag-worker'', InvocationType = ''Event'',
                       Payload = \<lparr>query_id = ''q1'', create_time = 1700000000,
                                  query_text = ''Where are robots built?'',
                                  answer_text = None, sources = [], is_complete = False\<rparr>\<rparr>]\<rparr>)"
    using submit_query_dispatch
      [where name = "''rag-worker''"
        and be = "\<lparr>search = (\<lambda>q k. Inl (OtherException ''index unavailable'')),
      generate = (\<lambda>m p. Inl (OtherException ''AccessDeniedException'')),
      ddb_put_error = (\<lambda>k. None), ddb_get_error = (\<lambda>k. None), lambda_invoke_error = None\<rparr>"
        and new_id = "''q1''" and now = 1700000000 and question = "''Where are robots built?''"
        and w = "\<lparr>jobs = Map.empty, invocations = []\<rparr>" and WORKER_LAMBDA_NAME = "Some ''x''"]
    by (simp add: Let_def)
  have b: "submit_query_endpoint
          \<lparr>search = (\<lambda>q k. Inr [(\<lparr>page_content = ''Robots are built at AIR Lab.'',
                                     metadata = [(''source'', MStr ''a.pdf''), (''page'', MInt 1),
                                                 (''id'', MStr ''a.pdf:1:text:42'')]\<rparr>, 0.9)]),
           generate = (\<lambda>m p. Inr ''At AIR Lab.''),
           ddb_put_error = (\<lambda>k. None), ddb_get_error = (\<lambda>k. None), lambda_invoke_error = None\<rparr>
          None ''q2'' 1700000001 ''Where are robots built?''
          \<lparr>jobs = Map.empty, invocations = []\<rparr>
        = (Inr \<lparr>query_id = ''q2'', create_time = 1700000001, query_text = ''Where are robots built?'',
                answer_text = Some ''At AIR Lab.'', sources = [MStr ''a.pdf:1:text:42''], is_complete = True\<rparr>,
           \<lparr>jobs = [''q2'' \<mapsto> \<lparr>query_id = ''q2'', create_time = 1700000001,
                                query_text = ''Where are robots built?'',
                                answer_text = Some ''At AIR Lab.'', sources = [MStr ''a.pdf:1:text:42''],
                                is_complete = True\<rparr>],
            invocations = []\<rparr>)"
    using submit_query_dispatch
      [where name = "[]"
        and be = "\<lparr>search = (\<lambda>q k. Inr [(\<lparr>page_content = ''Robots are built at AIR Lab.'',
                                     metadata = [(''source'', MStr ''a.pdf''), (''page'', MInt 1),
                                                 (''id'', MStr ''a.pdf:1:text:42'')]\<rparr>, 0.9)]),
           generate = (\<lambda>m p. Inr ''At AIR Lab.''),
           ddb_put_error = (\<lambda>k. None), ddb_get_error = (\<lambda>k. None), lambda_invoke_error = None\<rparr>"
        and new_id = "''q2''" and now = 1700000001 and question = "''Where are robots built?''"
        and w = "\<lparr>jobs = Map.empty, invocations = []\<rparr>" and WORKER_LAMBDA_NAME = None
        and results = "[(\<lparr>page_content = ''Robots are built at AIR Lab.'',
                                     metadata = [(''source'', MStr ''a.pdf''), (''page'', MInt 1),
                                                 (''id'', MStr ''a.pdf:1:text:42'')]\<rparr>, 0.9)]"]
    by (simp add: Let_def source_of_def)
  from a b show ?thesis by simp
qed

subsection \<open>Fetching a job\<close>

text \<open>
  C9, as the code has it. A fetch of an id the table does not hold returns \<open>None\<close>, and a
  fetch of a stored id returns the job. A \<open>ClientError\<close> of the store during the fetch is
  caught inside \<open>get_item\<close> and also returns \<open>None\<close>, the result of a missing id; any other
  exception of the store reaches the caller of \<open>get_query_endpoint\<close>.
\<close>

theorem get_item_results:
  "(ddb_get_error be qid = None \<longrightarrow> jobs w qid = None \<longrightarrow> get_query_endpoint be qid w = Inr None)
   \<and> (ddb_get_error be qid = None \<longrightarrow> jobs w qid = Some item \<longrightarrow>
        get_query_endpoint be qid w = Inr (Some item))
   \<and> (ddb_get_error be qid = Some (ClientError m) \<longrightarrow> get_query_endpoint be qid w = Inr None)
   \<and> (ddb_get_error be qid = Some (OtherException m) \<longrightarrow>
        get_query_endpoint be qid w = Inl (OtherException m))"
  by (simp add: get_query_endpoint_def get_item_def)

theorem get_item_results_witness:
  "get_query_endpoint
     \<lparr>search = (\<lambda>q k. Inr []), generate = (\<lambda>m p. Inr []), ddb_put_error = (\<lambda>k. None),
      ddb_get_error = (\<lambda>k. if k = ''q3'' then Some (ClientError ''Throttled'')
                             else if k = ''q4'' then Some (OtherException ''connection reset'')
                             else None),
      lambda_invoke_error = None\<rparr>
     ''q2''
     \<lparr>jobs = [''q1'' \<mapsto> \<lparr>query_id = ''q1'', create_time = 1700000000, query_text = ''Q'',
                          answer_text = None, sources = [], is_complete = False\<rparr>],
      invocations = []\<rparr>
   = Inr None
   \<and> get_query_endpoint
     \<lparr>search = (\<lambda>q k. Inr []), generate = (\<lambda>m p. Inr []), ddb_put_error = (\<lambda>k. None),
      ddb_get_error = (\<lambda>k. if k = ''q3'' then Some (ClientError ''Throttled'')
                             else if k = ''q4'' then Some (OtherException ''connection reset'')
                             else None),
      lambda_invoke_error = None\<rparr>
     ''q3''
     \<lparr>jobs = [''q1'' \<mapsto> \<lparr>query_id = ''q1'', create_time = 1700000000, query_text = ''Q'',
                          answer_text = None, sources = [], is_complete = False\<rparr>],
      invocations = []\<rparr>
   = Inr None
   \<and> get_query_endpoint
     \<lparr>search = (\<lambda>q k. Inr []), generate = (\<lambda>m p. Inr []), ddb_put_error = (\<lambda>k. None),
      ddb_get_error = (\<lambda>k. if k = ''q3'' then Some (ClientError ''Throttled'')
                             else if k = ''q4'' then Some (OtherException ''connection reset'')
                             else None),
      lambda_invoke_error = None\<rparr>
     ''q4''
     \<lparr>jobs = [''q1'' \<mapsto> \<lparr>query_id = ''q1'', create_time = 1700000000, query_text = ''Q'',
                          answer_text = None, sources = [], is_complete = False\<rparr>],
      invocations = []\<rparr>
   = Inl (OtherException ''connection reset'')"
proof -
  let ?be = "\<lparr>search = (\<lambda>q k. Inr []), generate = (\<lambda>m p. Inr []), ddb_put_error = (\<lambda>k. None),
      ddb_get_error = (\<lambda>k. if k = ''q3'' then Some (ClientError ''Throttled'')
                             else if k = ''q4'' then Some (OtherException ''connection reset'')
                             else None),
      lambda_invoke_error = None\<rparr>"
  let ?w = "\<lparr>jobs = [''q1'' \<mapsto> \<lparr>query_id = ''q1'', create_time = 1700000000, query_text = ''Q'',
                          answer_text = None, sources = [], is_complete = False\<rparr>],
      invocations = []\<rparr>"
  have "get_query_endpoint ?be ''q2'' ?w = Inr None"
    using get_item_results [of ?be "''q2''" ?w] by simp
  moreover have "get_query_endpoint ?be ''q3'' ?w = Inr None"
    using get_item_results [of ?be "''q3''" ?w _ "''Throttled''"] by simp
  moreover have "get_query_endpoint ?be ''q4'' ?w = Inl (OtherException ''connection reset'')"
    using get_item_results [of ?be "''q4''" ?w _ "''connection reset''"] by simp
  ultimately show ?thesis by simp
qed

text \<open>
  The claim as stated fails: the store holds job \<open>q1\<close> and raises a \<open>ClientError\<close> on the
  fetch; the caller gets \<open>None\<close> and no error, exactly what a fetch of the missing id \<open>q2\<close>
  from a healthy store gives.
\<close>

theorem get_item_ClientError_counterexample:
  "get_query_endpoint
     \<lparr>search = (\<lambda>q k. Inr []), generate = (\<lambda>m p. Inr []), ddb_put_error = (\<lambda>k. None),
      ddb_get_error = (\<lambda>k. Some (ClientError ''Requested resource not found'')),
      lambda_invoke_error = None\<rparr>
     ''q1''
     \<lparr>jobs = [''q1'' \<mapsto> \<lparr>query_id = ''q1'', create_time = 1700000000, query_text = ''Q'',
                          answer_text = None, sources = [], is_complete = False\<rparr>],
      invocations = []\<rparr>
   = Inr None
   \<and> get_query_endpoint
     \<lparr>search = (\<lambda>q k. Inr []), generate = (\<lambda>m p. Inr []), ddb_put_error = (\<lambda>k. None),
      ddb_get_error = (\<lambda>k. None), lambda_invoke_error = None\<rparr>
     ''q2''
     \<lparr>jobs = [''q1'' \<mapsto> \<lparr>query_id = ''q1'', create_time = 1700000000, query_text = ''Q'',
                          answer_text = None, sources = [], is_complete = False\<rparr>],
      invocations = []\<rparr>
   = Inr None"
  by (simp add: get_query_endpoint_def get_item_def)

end
